theory Spec2Isabelle
  imports Main
begin

section \<open>Namecoin credential registration (Namecoin.cpp)\<close>

text \<open>
  The file Namecoin.cpp drives three collaborators that are not part of it: the nmcrpc
  library (registry connection, names, addresses, registrations, the wallet lock), the
  DBHandler singleton (the table \<^verbatim>\<open>nmc_names\<close>) and the password dialog.  The
  collaborators are parameters of the model: every call that leaves the file is a field of
  the record \<open>env\<close>, it reads and changes an abstract world \<open>'w\<close>, and it returns either
  an exception or a value.  The table is modelled as the list of its rows, and each SQL
  statement of the source by its effect on that list: a statement handed to DBHandler is
  taken to be carried out as it is written.  Only \<^verbatim>\<open>queryOne\<close> is a parameter,
  since the source does not show what it does when no row or several rows match.

  An operation of the source is modelled up to its return.  What the destructors of its
  local objects do afterwards (the wallet unlocker of nmcrpc may lock the wallet again) is
  a change of the world between two operations; every theorem below holds for every world
  an operation starts in.
\<close>

subsection \<open>Exceptions, trace, rows, state\<close>

text \<open>
  The exception classes the source names in its handlers.  \<open>NmcUnlockFailure\<close> is
  \<^verbatim>\<open>nmcrpc::NamecoinInterface::UnlockFailure\<close> (wrong passphrase), \<open>UnlockFailure\<close> is
  \<^verbatim>\<open>NMC_WalletUnlocker::UnlockFailure\<close> (the user cancelled), \<open>StdException\<close> is any
  other \<^verbatim>\<open>std::exception\<close>.  All of them are caught by a handler for
  \<^verbatim>\<open>std::exception\<close>.
\<close>

datatype exn =
    RpcError
  | NoPrivateKey
  | NameNotFound
  | JsonParseError
  | NmcUnlockFailure
  | UnlockFailure
  | StdException

text \<open>
  The trace records, in order, the lines the code prints with \<^verbatim>\<open>qDebug\<close> and the
  calls whose number the specification speaks about: showing the password dialog, the
  unlock primitive, registering a name, activating a registration, entering
  \<^verbatim>\<open>updateName\<close>.
\<close>

datatype event =
    Debug string
  | PromptShown
  | UnlockPrimitive string
  | RegisterCall string
  | ActivateCall string
  | UpdateNameCall string string

text \<open>One row of the table \<^verbatim>\<open>nmc_names\<close>; \<open>None\<close> is SQL \<^verbatim>\<open>NULL\<close>.\<close>

record row =
  r_name :: string
  r_nym :: string
  r_cred :: string
  r_active :: bool
  r_regData :: "string option"
  r_updateTx :: "string option"

record ('w, 'r) state =
  world :: 'w
  db :: "row list"
  pendingRegs :: "'r list"
  trace :: "event list"

type_synonym ('x, 'w) ext = "'w \<Rightarrow> (exn + 'x) \<times> 'w"

text \<open>
  The collaborators.  \<open>'r\<close> is \<^verbatim>\<open>nmcrpc::NameRegistration\<close>, \<open>'n\<close> is
  \<^verbatim>\<open>NamecoinInterface::Name\<close>, \<open>'a\<close> is \<^verbatim>\<open>NamecoinInterface::Address\<close>, \<open>'j\<close> is
  \<^verbatim>\<open>JsonRpc::JsonData\<close>, \<open>'u\<close> is \<^verbatim>\<open>nmcrpc::NameUpdate\<close>.  \<open>activate\<close> changes
  the registration in place, so it returns the registration as it is afterwards also
  when it throws.  \<open>queryOne\<close> receives the rows the \<^verbatim>\<open>SELECT\<close> matches.
\<close>

record ('w, 'r, 'n, 'a, 'j, 'u) env =
  needWalletPassphrase :: "(bool, 'w) ext"
  dlgExec :: "(int \<times> string, 'w) ext"
  walletUnlock :: "string \<Rightarrow> (unit, 'w) ext"
  queryName :: "string \<Rightarrow> string \<Rightarrow> ('n, 'w) ext"
  nm_getName :: "'n \<Rightarrow> string"
  nm_getJsonValue :: "'n \<Rightarrow> ('j, 'w) ext"
  nm_getAddress :: "'n \<Rightarrow> ('a, 'w) ext"
  jsonField :: "'j \<Rightarrow> string \<Rightarrow> exn + 'j"
  isString :: "'j \<Rightarrow> bool"
  asString :: "'j \<Rightarrow> string"
  getNymSource :: "string \<Rightarrow> (string, 'w) ext"
  queryAddress :: "string \<Rightarrow> ('a, 'w) ext"
  isValid :: "'a \<Rightarrow> (bool, 'w) ext"
  isMine :: "'a \<Rightarrow> (bool, 'w) ext"
  addr_getAddress :: "'a \<Rightarrow> string"
  signMessage :: "'a \<Rightarrow> string \<Rightarrow> (string, 'w) ext"
  verifySignature :: "'a \<Rightarrow> string \<Rightarrow> string \<Rightarrow> (bool, 'w) ext"
  nameUpdateCtor :: "'n \<Rightarrow> ('u, 'w) ext"
  setValue :: "'u \<Rightarrow> string \<Rightarrow> 'u"
  execute :: "'u \<Rightarrow> 'a \<Rightarrow> (string, 'w) ext"
  registerName :: "'n \<Rightarrow> ('r, 'w) ext"
  getName :: "'r \<Rightarrow> string"
  canActivate :: "'r \<Rightarrow> (bool, 'w) ext"
  isFinished :: "'r \<Rightarrow> (bool, 'w) ext"
  activate :: "'r \<Rightarrow> 'w \<Rightarrow> (exn + unit) \<times> 'r \<times> 'w"
  serialize :: "'r \<Rightarrow> string"
  deserialize :: "string \<Rightarrow> exn + 'r"
  queryOne :: "(string \<times> string) list \<Rightarrow> exn + (string \<times> string)"

definition NMC_NS :: string where
  "NMC_NS = ''ot''"

definition call :: "('x, 'w) ext \<Rightarrow> ('w, 'r) state \<Rightarrow> (exn + 'x) \<times> ('w, 'r) state" where
  "call f s = (case f (world s) of (res, w) \<Rightarrow> (res, s\<lparr>world := w\<rparr>))"

definition emit :: "event \<Rightarrow> ('w, 'r) state \<Rightarrow> ('w, 'r) state" where
  "emit ev s = s\<lparr>trace := trace s @ [ev]\<rparr>"

definition say :: "string \<Rightarrow> ('w, 'r) state \<Rightarrow> ('w, 'r) state" where
  "say msg s = emit (Debug msg) s"

text \<open>
  The two handlers that end the \<^verbatim>\<open>try\<close> blocks of \<^verbatim>\<open>startRegistration\<close> and of
  the loop body of \<^verbatim>\<open>timerUpdate\<close>: both print and go on.
\<close>

definition catch_log :: "exn \<Rightarrow> ('w, 'r) state \<Rightarrow> ('w, 'r) state" where
  "catch_log e s = (if e = RpcError then say ''NMC RPC Error'' s else say ''Error'' s)"

subsection \<open>The SQL statements\<close>

text \<open>\<^verbatim>\<open>INSERT INTO nmc_names (name, nym, cred, active, regData) VALUES (:name, :nym, :cred, 0, :regData)\<close>\<close>

definition sql_insert :: "string \<Rightarrow> string \<Rightarrow> string \<Rightarrow> string \<Rightarrow> row list \<Rightarrow> row list" where
  "sql_insert n ny cr rd rows =
     rows @ [\<lparr>r_name = n, r_nym = ny, r_cred = cr, r_active = False,
              r_regData = Some rd, r_updateTx = None\<rparr>]"

text \<open>\<^verbatim>\<open>UPDATE nmc_names SET updateTx = :txid WHERE name = :name\<close>\<close>

definition sql_set_updateTx :: "string \<Rightarrow> string \<Rightarrow> row list \<Rightarrow> row list" where
  "sql_set_updateTx n txid rows =
     map (\<lambda>r. if r_name r = n then r\<lparr>r_updateTx := Some txid\<rparr> else r) rows"

text \<open>\<^verbatim>\<open>UPDATE nmc_names SET regData = NULL, active = 1 WHERE name = :name\<close>\<close>

definition sql_set_active :: "string \<Rightarrow> row list \<Rightarrow> row list" where
  "sql_set_active n rows =
     map (\<lambda>r. if r_name r = n then r\<lparr>r_regData := None, r_active := True\<rparr> else r) rows"

text \<open>\<^verbatim>\<open>UPDATE nmc_names SET regData = :regData WHERE name = :name\<close>\<close>

definition sql_set_regData :: "string \<Rightarrow> string \<Rightarrow> row list \<Rightarrow> row list" where
  "sql_set_regData n rd rows =
     map (\<lambda>r. if r_name r = n then r\<lparr>r_regData := Some rd\<rparr> else r) rows"

text \<open>\<^verbatim>\<open>SELECT nym, cred FROM nmc_names WHERE name = :name\<close>\<close>

definition sql_select_nym_cred :: "string \<Rightarrow> row list \<Rightarrow> (string \<times> string) list" where
  "sql_select_nym_cred n rows = map (\<lambda>r. (r_nym r, r_cred r)) (filter (\<lambda>r. r_name r = n) rows)"

text \<open>\<^verbatim>\<open>SELECT regData FROM nmc_names WHERE (regData IS NOT NULL) AND (NOT active)\<close>\<close>

definition is_pending_row :: "row \<Rightarrow> bool" where
  "is_pending_row r = (r_regData r \<noteq> None \<and> \<not> r_active r)"

definition sql_select_pending :: "row list \<Rightarrow> string list" where
  "sql_select_pending rows =
     List.map_filter (\<lambda>r. if is_pending_row r then r_regData r else None) rows"

subsection \<open>NMC_WalletUnlocker::unlock\<close>

text \<open>
  The first half of \<^verbatim>\<open>unlock\<close>: the passphrase is empty unless the wallet asks for
  one, in which case the dialog is shown; return code 0 of the dialog is the cancel button.
\<close>

definition unlock_prompt ::
  "('w, 'r, 'n, 'a, 'j, 'u) env \<Rightarrow> ('w, 'r) state \<Rightarrow> (exn + string) \<times> ('w, 'r) state"
where
  "unlock_prompt env s1 =
    (case call (needWalletPassphrase env) s1 of
       (Inl e, s2) \<Rightarrow> (Inl e, s2)
     | (Inr need, s2) \<Rightarrow>
         if need
         then (case call (dlgExec env) (emit PromptShown s2) of
                 (Inl e, s3) \<Rightarrow> (Inl e, s3)
               | (Inr (res, pw), s3) \<Rightarrow>
                   if res = 0
                   then (Inl UnlockFailure, say ''Wallet unlock was cancelled.'' s3)
                   else (Inr pw, s3))
         else (Inr [], s2))"

text \<open>
  The second half calls the unlock primitive.  The retry after a wrong passphrase is a
  recursive call with no bound, so the function is partial: \<open>None\<close> is a run that
  prompts forever.  A result \<open>Inl e\<close> is the exception \<open>e\<close> leaving
  \<^verbatim>\<open>unlock\<close>, \<open>Inr ()\<close> is a normal return.
\<close>

partial_function (option) unlock ::
  "('w, 'r, 'n, 'a, 'j, 'u) env \<Rightarrow> ('w, 'r) state \<Rightarrow> ((exn + unit) \<times> ('w, 'r) state) option"
where
  "unlock env s0 =
    (case unlock_prompt env (say ''Trying to unlock the Namecoin wallet.'' s0) of
       (Inl e, s3) \<Rightarrow> Some (Inl e, s3)
     | (Inr pwd, s3) \<Rightarrow>
        (case call (walletUnlock env pwd) (emit (UnlockPrimitive pwd) s3) of
           (Inr u, s4) \<Rightarrow> Some (Inr (), say ''Unlock successful (or not necessary).'' s4)
         | (Inl e, s4) \<Rightarrow>
             if e = NmcUnlockFailure
             then unlock env (say ''Wrong passphrase, retrying.'' s4)
             else Some (Inr (), catch_log e s4)))"

declare unlock.simps [code]

subsection \<open>NMC_NameManager: construction, startRegistration, updateName\<close>

text \<open>
  The constructor reads the payload of every pending row and rebuilds a registration from
  each, printing its name.  An exception of the stream extraction leaves the constructor,
  and then there is no manager and no trace to speak of.
\<close>

fun addPendingRegs ::
  "('w, 'r, 'n, 'a, 'j, 'u) env \<Rightarrow> string list \<Rightarrow> 'r list \<Rightarrow> exn + 'r list"
where
  "addPendingRegs env [] regs = Inr regs"
| "addPendingRegs env (val # vals) regs =
     (case deserialize env val of
        Inl e \<Rightarrow> Inl e
      | Inr reg \<Rightarrow> addPendingRegs env vals (regs @ [reg]))"

definition NMC_NameManager ::
  "('w, 'r, 'n, 'a, 'j, 'u) env \<Rightarrow> 'w \<Rightarrow> row list \<Rightarrow> exn + ('w, 'r) state"
where
  "NMC_NameManager env w rows =
     (case addPendingRegs env (sql_select_pending rows) [] of
        Inl e \<Rightarrow> Inl e
      | Inr regs \<Rightarrow>
          Inr \<lparr>world = w, db = rows, pendingRegs = regs,
               trace = Debug ''Loading pending name registrations:'' #
                       map (\<lambda>reg. Debug (''  '' @ getName env reg)) regs\<rparr>)"

definition getNameForNym ::
  "('w, 'r, 'n, 'a, 'j, 'u) env \<Rightarrow> string \<Rightarrow> string \<Rightarrow> ('n, 'w) ext"
where
  "getNameForNym env nym cred = queryName env NMC_NS cred"

text \<open>
  \<^verbatim>\<open>startRegistration\<close> returns nothing and catches every exception, so its result
  is the state it leaves; \<open>None\<close> is an unlock that never ends.
\<close>

definition startRegistration ::
  "('w, 'r, 'n, 'a, 'j, 'u) env \<Rightarrow> string \<Rightarrow> string \<Rightarrow> ('w, 'r) state \<Rightarrow> ('w, 'r) state option"
where
  "startRegistration env nym cred s0 =
    (let s1 = say ''Registering on the Namecoin blockchain.'' s0 in
     case call (getNameForNym env nym cred) s1 of
       (Inl e, s2) \<Rightarrow> Some (catch_log e s2)
     | (Inr nm, s2) \<Rightarrow>
        (case unlock env s2 of
           None \<Rightarrow> None
         | Some (Inl e, s3) \<Rightarrow>
             if e = UnlockFailure then Some (say ''Unlock failed.'' s3)
             else Some (catch_log e s3)
         | Some (Inr u, s3) \<Rightarrow>
            (case call (registerName env nm) (emit (RegisterCall (nm_getName env nm)) s3) of
               (Inl e, s4) \<Rightarrow> Some (catch_log e s4)
             | (Inr reg, s4) \<Rightarrow>
                 Some (s4\<lparr>db := sql_insert (nm_getName env nm) nym cred (serialize env reg) (db s4),
                          pendingRegs := pendingRegs s4 @ [reg]\<rparr>))))"

text \<open>
  \<^verbatim>\<open>updateName\<close>: \<open>Inr b\<close> is the return value \<open>b\<close>, \<open>Inl e\<close> an exception that
  leaves the function.  Only \<open>NoPrivateKey\<close> thrown by \<^verbatim>\<open>upd.execute\<close> is caught.
\<close>

definition updateName ::
  "('w, 'r, 'n, 'a, 'j, 'u) env \<Rightarrow> string \<Rightarrow> string \<Rightarrow> ('w, 'r) state \<Rightarrow> (exn + bool) \<times> ('w, 'r) state"
where
  "updateName env nym cred s0 =
    (case call (getNymSource env nym) (emit (UpdateNameCall nym cred) s0) of
       (Inl e, s1) \<Rightarrow> (Inl e, s1)
     | (Inr addrStr, s1) \<Rightarrow>
    (case call (queryAddress env addrStr) s1 of
       (Inl e, s2) \<Rightarrow> (Inl e, s2)
     | (Inr addr, s2) \<Rightarrow>
    (case call (isValid env addr) s2 of
       (Inl e, s3) \<Rightarrow> (Inl e, s3)
     | (Inr valid, s3) \<Rightarrow>
    (case (if valid then call (isMine env addr) s3 else (Inr False, s3)) of
       (Inl e, s4) \<Rightarrow> (Inl e, s4)
     | (Inr mine, s4) \<Rightarrow>
    if \<not> mine
    then (Inr False, say ''Nym source is not a valid Namecoin address, or it is not owned by you.'' s4)
    else
    (case call (getNameForNym env nym cred) s4 of
       (Inl e, s5) \<Rightarrow> (Inl e, s5)
     | (Inr nm, s5) \<Rightarrow>
    (case call (nameUpdateCtor env nm) s5 of
       (Inl e, s6) \<Rightarrow> (Inl e, s6)
     | (Inr upd, s6) \<Rightarrow>
    (case call (needWalletPassphrase env) s6 of
       (Inl e, s7) \<Rightarrow> (Inl e, s7)
     | (Inr need, s7) \<Rightarrow>
    if need
    then (Inr False, say ''Wallet should be unlocked already for updateName(), but is not.'' s7)
    else
    (case call (signMessage env addr cred) s7 of
       (Inl e, s8) \<Rightarrow> (Inl e, s8)
     | (Inr sig, s8) \<Rightarrow>
    (case call (execute env (setValue env upd sig) addr) s8 of
       (Inl e, s9) \<Rightarrow>
         if e = NoPrivateKey
         then (Inr False, say ''Name cannot be updated, as you don't own the private key.'' s9)
         else (Inl e, s9)
     | (Inr txid, s9) \<Rightarrow>
         (Inr True, s9\<lparr>db := sql_set_updateTx (nm_getName env nm) txid (db s9)\<rparr>))))))))))"

subsection \<open>NMC_NameManager::timerUpdate\<close>

text \<open>
  The first loop: \<^verbatim>\<open>needUnlock\<close> becomes true when an entry can be activated or is
  finished.  The loop has no \<^verbatim>\<open>try\<close> around it, so an exception of either predicate
  leaves it.
\<close>

fun needUnlock_loop ::
  "('w, 'r, 'n, 'a, 'j, 'u) env \<Rightarrow> 'r list \<Rightarrow> bool \<Rightarrow> ('w, 'r) state \<Rightarrow> (exn + bool) \<times> ('w, 'r) state"
where
  "needUnlock_loop env [] needUnlock s = (Inr needUnlock, s)"
| "needUnlock_loop env (entry # entries) needUnlock s =
     (case call (canActivate env entry) s of
        (Inl e, s1) \<Rightarrow> (Inl e, s1)
      | (Inr can, s1) \<Rightarrow>
          if can then needUnlock_loop env entries True s1
          else (case call (isFinished env entry) s1 of
                  (Inl e, s2) \<Rightarrow> (Inl e, s2)
                | (Inr fin, s2) \<Rightarrow>
                    needUnlock_loop env entries (if fin then True else needUnlock) s2))"

text \<open>
  The body of the second loop for the entry \<open>i\<close>, with its two handlers.  The result
  \<open>None\<close> is \<^verbatim>\<open>i = pendingRegs.erase (i)\<close>; \<open>Some i'\<close> is the entry as it stays
  in the list, followed by \<^verbatim>\<open>++i\<close>.
\<close>

definition timerUpdate_entry ::
  "('w, 'r, 'n, 'a, 'j, 'u) env \<Rightarrow> 'r \<Rightarrow> ('w, 'r) state \<Rightarrow> 'r option \<times> ('w, 'r) state"
where
  "timerUpdate_entry env i s0 =
    (case call (isFinished env i) s0 of
       (Inl e, s1) \<Rightarrow> (Some i, catch_log e s1)
     | (Inr fin, s1) \<Rightarrow>
        if fin
        then
          (let s2 = say ''Registration finished'' s1;
               s3 = s2\<lparr>db := sql_set_active (getName env i) (db s2)\<rparr>
           in case queryOne env (sql_select_nym_cred (getName env i) (db s3)) of
                Inl e \<Rightarrow> (Some i, catch_log e s3)
              | Inr (nym, cred) \<Rightarrow>
                 (case updateName env nym cred s3 of
                    (Inl e, s4) \<Rightarrow> (Some i, catch_log e s4)
                  | (Inr success, s4) \<Rightarrow>
                      (None, say (if success then ''Issued name_update successfully.''
                                  else ''name_update failed.'') s4)))
        else
          (case call (canActivate env i) s1 of
             (Inl e, s2) \<Rightarrow> (Some i, catch_log e s2)
           | (Inr can, s2) \<Rightarrow>
              if can
              then
                (let s3 = emit (ActivateCall (getName env i)) (say ''Activating'' s2)
                 in case activate env i (world s3) of
                      (Inl e, i', w) \<Rightarrow> (Some i', catch_log e (s3\<lparr>world := w\<rparr>))
                    | (Inr u, i', w) \<Rightarrow>
                        (Some i',
                         s3\<lparr>world := w,
                            db := sql_set_regData (getName env i') (serialize env i') (db s3)\<rparr>))
              else (Some i, s2)))"

text \<open>
  The second loop runs the body on every entry in order; the entries that are not erased
  make up the list afterwards.  Nothing the body calls reads \<^verbatim>\<open>pendingRegs\<close>, so
  the field of the state is written once, when the loop is over.
\<close>

fun timerUpdate_loop ::
  "('w, 'r, 'n, 'a, 'j, 'u) env \<Rightarrow> 'r list \<Rightarrow> ('w, 'r) state \<Rightarrow> 'r list \<times> ('w, 'r) state"
where
  "timerUpdate_loop env [] s = ([], s)"
| "timerUpdate_loop env (i # rest) s =
     (case timerUpdate_entry env i s of
        (None, s1) \<Rightarrow> timerUpdate_loop env rest s1
      | (Some i', s1) \<Rightarrow>
          (case timerUpdate_loop env rest s1 of (kept, s2) \<Rightarrow> (i' # kept, s2)))"

text \<open>
  \<open>Some (Inr (), s)\<close> is a normal return in state \<open>s\<close>, \<open>Some (Inl e, s)\<close> the
  exception \<open>e\<close> leaving the slot, \<open>None\<close> an unlock that never ends.
\<close>

definition timerUpdate ::
  "('w, 'r, 'n, 'a, 'j, 'u) env \<Rightarrow> ('w, 'r) state \<Rightarrow> ((exn + unit) \<times> ('w, 'r) state) option"
where
  "timerUpdate env s0 =
    (let s1 = say ''Namecoin update timer called.'' s0 in
     case needUnlock_loop env (pendingRegs s1) False s1 of
       (Inl e, s2) \<Rightarrow> Some (Inl e, s2)
     | (Inr needUnlock, s2) \<Rightarrow>
        (case (if needUnlock
               then unlock env (say ''Need to unlock the wallet, trying to do it.'' s2)
               else Some (Inr (), say ''No operations necessary that need an unlocked wallet.'' s2)) of
           None \<Rightarrow> None
         | Some (Inl e, s3) \<Rightarrow>
             if e = UnlockFailure
             then Some (Inr (), say ''Unlock failed, cancelling the timer update.'' s3)
             else Some (Inl e, s3)
         | Some (Inr u, s3) \<Rightarrow>
            (case timerUpdate_loop env (pendingRegs s3) s3 of
               (kept, s4) \<Rightarrow> Some (Inr (), s4\<lparr>pendingRegs := kept\<rparr>))))"

subsection \<open>NMC_Verifier::verifyCredentialHashAtSource\<close>

text \<open>
  The body of the \<^verbatim>\<open>try\<close> block, then the function with its two handlers.  The
  query of the name stands before the \<^verbatim>\<open>try\<close>.
\<close>

definition verify_try ::
  "('w, 'r, 'n, 'a, 'j, 'u) env \<Rightarrow> 'n \<Rightarrow> string \<Rightarrow> string \<Rightarrow> ('w, 'r) state \<Rightarrow> (exn + bool) \<times> ('w, 'r) state"
where
  "verify_try env nm hash source s1 =
    (case call (nm_getJsonValue env nm) s1 of
       (Inl e, s2) \<Rightarrow> (Inl e, s2)
     | (Inr val, s2) \<Rightarrow>
    (case jsonField env val ''nmcsig'' of
       Inl e \<Rightarrow> (Inl e, s2)
     | Inr sigval \<Rightarrow>
    if \<not> isString env sigval then (Inr False, s2)
    else
    (case call (nm_getAddress env nm) s2 of
       (Inl e, s3) \<Rightarrow> (Inl e, s3)
     | (Inr addr, s3) \<Rightarrow>
    if source \<noteq> addr_getAddress env addr then (Inr False, s3)
    else call (verifySignature env addr hash (asString env sigval)) s3)))"

definition verifyCredentialHashAtSource ::
  "('w, 'r, 'n, 'a, 'j, 'u) env \<Rightarrow> string \<Rightarrow> string \<Rightarrow> ('w, 'r) state \<Rightarrow> (exn + bool) \<times> ('w, 'r) state"
where
  "verifyCredentialHashAtSource env hash source s0 =
    (case call (queryName env NMC_NS hash) s0 of
       (Inl e, s1) \<Rightarrow> (Inl e, s1)
     | (Inr nm, s1) \<Rightarrow>
        (case verify_try env nm hash source s1 of
           (Inl e, s2) \<Rightarrow>
             if e = NameNotFound then (Inr False, s2)
             else if e = JsonParseError then (Inr False, s2)
             else (Inl e, s2)
         | (Inr b, s2) \<Rightarrow> (Inr b, s2)))"

subsection \<open>What the claims observe\<close>

text \<open>The events \<^verbatim>\<open>unlock\<close> can add to the trace.\<close>

fun unlock_event :: "event \<Rightarrow> bool" where
  "unlock_event (Debug m) = True"
| "unlock_event PromptShown = True"
| "unlock_event (UnlockPrimitive p) = True"
| "unlock_event ev = False"

text \<open>The calls that advance a binding: register, activate, update.\<close>

fun advance_event :: "event \<Rightarrow> bool" where
  "advance_event (RegisterCall n) = True"
| "advance_event (ActivateCall n) = True"
| "advance_event (UpdateNameCall ny cr) = True"
| "advance_event ev = False"

fun update_call :: "event \<Rightarrow> bool" where
  "update_call (UpdateNameCall ny cr) = True"
| "update_call ev = False"

text \<open>
  The names of the bindings in the ledger, the names of the pending rows of the store
  (those with a payload and \<^verbatim>\<open>active = 0\<close>), and the invariant of the
  specification: the bindings of the ledger and the pending rows of the store correspond
  one to one, in order, each binding to the row of its name.
\<close>

definition ledger_names :: "('w, 'r, 'n, 'a, 'j, 'u) env \<Rightarrow> 'r list \<Rightarrow> string list" where
  "ledger_names env regs = map (getName env) regs"

definition pending_names :: "row list \<Rightarrow> string list" where
  "pending_names rows = map r_name (filter is_pending_row rows)"

definition ledger_matches_store :: "('w, 'r, 'n, 'a, 'j, 'u) env \<Rightarrow> ('w, 'r) state \<Rightarrow> bool" where
  "ledger_matches_store env s =
     (ledger_names env (pendingRegs s) = pending_names (db s))"

text \<open>
  Two conditions on the store.  Every row that is not active carries a payload (the code
  writes no other rows).  The payload of every pending row, when it can be read back,
  gives a registration of the row's name.
\<close>

definition rows_have_payload :: "row list \<Rightarrow> bool" where
  "rows_have_payload rows = list_all (\<lambda>r. r_active r \<or> r_regData r \<noteq> None) rows"

definition payloads_named :: "('w, 'r, 'n, 'a, 'j, 'u) env \<Rightarrow> row list \<Rightarrow> bool" where
  "payloads_named env rows =
     list_all (\<lambda>r. case r_regData r of
                     None \<Rightarrow> True
                   | Some p \<Rightarrow> (case deserialize env p of
                                 Inl e \<Rightarrow> True
                               | Inr reg \<Rightarrow> getName env reg = r_name r))
              (filter is_pending_row rows)"

subsection \<open>A small registry to run the model on\<close>

text \<open>
  The world is the lock of the wallet (\<open>True\<close> is locked, the passphrase is
  \<^verbatim>\<open>secret\<close>).  A registration is its name behind one letter for its progress:
  \<^verbatim>\<open>R\<close> registered, \<^verbatim>\<open>C\<close> can be activated, \<^verbatim>\<open>A\<close> activated, \<^verbatim>\<open>F\<close>
  finished; it is its own payload.  A name is its own handle, an address its own string,
  and a signature of \<open>m\<close> is \<^verbatim>\<open>sig:\<close> followed by \<open>m\<close>.
\<close>

definition demo_env :: "(bool, string, string, string, string option, string \<times> string) env" where
  "demo_env =
    \<lparr>needWalletPassphrase = (\<lambda>w. (Inr w, w)),
     dlgExec = (\<lambda>w. (Inr (1, ''secret''), w)),
     walletUnlock = (\<lambda>pwd w. if w \<and> pwd \<noteq> ''secret'' then (Inl NmcUnlockFailure, w)
                             else (Inr (), False)),
     queryName = (\<lambda>ns key w. (Inr (ns @ ''/'' @ key), w)),
     nm_getName = (\<lambda>nm. nm),
     nm_getJsonValue = (\<lambda>nm w. (Inr (Some (''sig:'' @ drop 3 nm)), w)),
     nm_getAddress = (\<lambda>nm w. (Inr ''N1'', w)),
     jsonField = (\<lambda>val key. Inr val),
     isString = (\<lambda>val. val \<noteq> None),
     asString = (\<lambda>val. case val of None \<Rightarrow> [] | Some str \<Rightarrow> str),
     getNymSource = (\<lambda>nym w. (Inr nym, w)),
     queryAddress = (\<lambda>str w. (Inr str, w)),
     isValid = (\<lambda>addr w. (Inr True, w)),
     isMine = (\<lambda>addr w. (Inr True, w)),
     addr_getAddress = (\<lambda>addr. addr),
     signMessage = (\<lambda>addr msg w. (Inr (''sig:'' @ msg), w)),
     verifySignature = (\<lambda>addr msg sg w. (Inr (sg = ''sig:'' @ msg), w)),
     nameUpdateCtor = (\<lambda>nm w. (Inr (nm, []), w)),
     setValue = (\<lambda>upd val. (fst upd, val)),
     execute = (\<lambda>upd addr w. (Inr ''tx1'', w)),
     registerName = (\<lambda>nm w. (Inr (CHR ''R'' # nm), w)),
     getName = (\<lambda>reg. drop 1 reg),
     canActivate = (\<lambda>reg w. (Inr (take 1 reg = ''C''), w)),
     isFinished = (\<lambda>reg w. (Inr (take 1 reg = ''F''), w)),
     activate = (\<lambda>reg w. (Inr (), CHR ''A'' # drop 1 reg, w)),
     serialize = (\<lambda>reg. reg),
     deserialize = (\<lambda>str. Inr str),
     queryOne = (\<lambda>recs. case recs of [] \<Rightarrow> Inl StdException | rec # _ \<Rightarrow> Inr rec)\<rparr>"

text \<open>The row \<^verbatim>\<open>startRegistration\<close> writes for a registration of the nym \<^verbatim>\<open>N1\<close>.\<close>

definition demo_row :: "string \<Rightarrow> row" where
  "demo_row reg =
     \<lparr>r_name = drop 1 reg, r_nym = ''N1'', r_cred = drop 4 reg, r_active = False,
      r_regData = Some reg, r_updateTx = None\<rparr>"

definition demo_state :: "bool \<Rightarrow> string list \<Rightarrow> (bool, string) state" where
  "demo_state locked regs =
     \<lparr>world = locked, db = map demo_row regs, pendingRegs = regs, trace = []\<rparr>"

text \<open>
  The same registry with one collaborator failing.  In \<open>env_refuse\<close> the unlock
  primitive refuses every passphrase but the right one and leaves the wallet locked; in
  \<open>env_stubborn\<close> it refuses every passphrase.
\<close>

definition env_predicate_down ::
  "(bool, string, string, string, string option, string \<times> string) env" where
  "env_predicate_down = demo_env\<lparr>canActivate := (\<lambda>reg w. (Inl RpcError, w))\<rparr>"

definition env_address_down ::
  "(bool, string, string, string, string option, string \<times> string) env" where
  "env_address_down = demo_env\<lparr>queryAddress := (\<lambda>str w. (Inl RpcError, w))\<rparr>"

definition env_unlock_down ::
  "(bool, string, string, string, string option, string \<times> string) env" where
  "env_unlock_down = demo_env\<lparr>walletUnlock := (\<lambda>pwd w. (Inl RpcError, w))\<rparr>"

definition env_cancel ::
  "(bool, string, string, string, string option, string \<times> string) env" where
  "env_cancel = demo_env\<lparr>dlgExec := (\<lambda>w. (Inr (0, []), w))\<rparr>"

definition env_refuse ::
  "(bool, string, string, string, string option, string \<times> string) env" where
  "env_refuse = demo_env\<lparr>walletUnlock :=
     (\<lambda>pwd w. if pwd = ''secret'' then (Inr (), False) else (Inl NmcUnlockFailure, True))\<rparr>"

definition env_stubborn ::
  "(bool, string, string, string, string option, string \<times> string) env" where
  "env_stubborn = demo_env\<lparr>walletUnlock := (\<lambda>pwd w. (Inl NmcUnlockFailure, w))\<rparr>"

definition env_no_key ::
  "(bool, string, string, string, string option, string \<times> string) env" where
  "env_no_key = demo_env\<lparr>execute := (\<lambda>upd addr w. (Inl NoPrivateKey, w))\<rparr>"

section \<open>Basic facts\<close>

lemma emit_fields [simp]:
  "world (emit ev s) = world s" "db (emit ev s) = db s"
  "pendingRegs (emit ev s) = pendingRegs s" "trace (emit ev s) = trace s @ [ev]"
  by (simp_all add: emit_def)

lemma say_fields [simp]:
  "world (say m s) = world s" "db (say m s) = db s"
  "pendingRegs (say m s) = pendingRegs s" "trace (say m s) = trace s @ [Debug m]"
  by (simp_all add: say_def)

lemma catch_log_fields [simp]:
  "world (catch_log e s) = world s" "db (catch_log e s) = db s"
  "pendingRegs (catch_log e s) = pendingRegs s"
  "trace (catch_log e s) =
     trace s @ [Debug (if e = RpcError then ''NMC RPC Error'' else ''Error'')]"
  by (simp_all add: catch_log_def)

lemma call_frame:
  assumes "call f s = (res, s')"
  shows "db s' = db s" "pendingRegs s' = pendingRegs s" "trace s' = trace s"
    "f (world s) = (res, world s')"
  using assms by (auto simp: call_def split: prod.splits)

lemma call_world:
  assumes "f (world s) = (res, w)"
  shows "call f s = (res, s\<lparr>world := w\<rparr>)"
  using assms by (simp add: call_def)

text \<open>\<^verbatim>\<open>unlock\<close> writes neither the store nor the ledger, and adds only its own events.\<close>

lemma unlock_prompt_frame:
  assumes "unlock_prompt env s = (res, s')"
  shows "db s' = db s \<and> pendingRegs s' = pendingRegs s \<and>
         (\<exists>evs. trace s' = trace s @ evs \<and> list_all unlock_event evs)"
proof -
  obtain r2 s2 where c2: "call (needWalletPassphrase env) s = (r2, s2)" by fastforce
  note f2 = call_frame(1-3)[OF c2]
  obtain r3 s3 where c3: "call (dlgExec env) (emit PromptShown s2) = (r3, s3)" by fastforce
  note f3 = call_frame(1-3)[OF c3]
  show ?thesis
  proof (cases r2)
    case (Inl e)
    with assms c2 f2 show ?thesis by (simp add: unlock_prompt_def)
  next
    case (Inr need)
    show ?thesis
    proof (cases need)
      case False
      with assms c2 Inr f2 show ?thesis by (simp add: unlock_prompt_def)
    next
      case True
      show ?thesis
      proof (cases r3)
        case (Inl e)
        with assms c2 c3 Inr True f2 f3 show ?thesis by (auto simp add: unlock_prompt_def)
      next
        case (Inr rp)
        with assms c2 c3 \<open>r2 = Inr need\<close> True f2 f3 show ?thesis
          by (cases rp) (auto simp add: unlock_prompt_def split: if_splits)
      qed
    qed
  qed
qed

lemma unlock_frame:
  assumes "unlock env s = Some y"
  shows "db (snd y) = db s \<and> pendingRegs (snd y) = pendingRegs s \<and>
         (\<exists>evs. trace (snd y) = trace s @ evs \<and> list_all unlock_event evs)"
proof (rule unlock.raw_induct[where P = "\<lambda>env s y. db (snd y) = db s \<and>
         pendingRegs (snd y) = pendingRegs s \<and>
         (\<exists>evs. trace (snd y) = trace s @ evs \<and> list_all unlock_event evs)", OF _ assms],
       goal_cases)
  case (1 unlock' env s0 y)
  obtain r3 s3 where
    p: "unlock_prompt env (say ''Trying to unlock the Namecoin wallet.'' s0) = (r3, s3)"
    by fastforce
  from unlock_prompt_frame[OF p] obtain evs3 where
    f3: "db s3 = db s0" "pendingRegs s3 = pendingRegs s0"
        "trace s3 = trace s0 @ Debug ''Trying to unlock the Namecoin wallet.'' # evs3"
        "list_all unlock_event evs3"
    by auto
  show ?case
  proof (cases r3)
    case (Inl e)
    with 1(2) p f3 show ?thesis by auto
  next
    case (Inr pwd)
    obtain r4 s4 where
      c: "call (walletUnlock env pwd) (emit (UnlockPrimitive pwd) s3) = (r4, s4)"
      by fastforce
    note f4 = call_frame(1-3)[OF c]
    show ?thesis
    proof (cases "r4 = Inl NmcUnlockFailure")
      case True
      with 1(2) p Inr c
      have again: "unlock' env (say ''Wrong passphrase, retrying.'' s4) = Some y"
        by simp
      have ih: "db (snd y) = db (say ''Wrong passphrase, retrying.'' s4) \<and>
         pendingRegs (snd y) = pendingRegs (say ''Wrong passphrase, retrying.'' s4) \<and>
         (\<exists>evs. trace (snd y) = trace (say ''Wrong passphrase, retrying.'' s4) @ evs \<and>
                list_all unlock_event evs)"
        using again by (rule 1(1))
      then obtain evs where
        "trace (snd y) = trace (say ''Wrong passphrase, retrying.'' s4) @ evs"
        "list_all unlock_event evs"
        by blast
      with ih f3 f4 show ?thesis by simp
    next
      case False
      with 1(2) p Inr c f3 f4 show ?thesis
        by (cases r4) (auto split: if_splits)
    qed
  qed
qed

lemma unlock_events_not_advance:
  "list_all unlock_event evs \<Longrightarrow> filter advance_event evs = []"
proof (induction evs)
  case Nil
  then show ?case by simp
next
  case (Cons ev evs)
  then show ?case by (cases ev) simp_all
qed

text \<open>What \<^verbatim>\<open>updateName\<close> and the two loops of \<^verbatim>\<open>timerUpdate\<close> change.\<close>

lemma updateName_effect:
  "pendingRegs (snd (updateName env nym cred s)) = pendingRegs s \<and>
   (\<exists>evs. trace (snd (updateName env nym cred s)) = trace s @ UpdateNameCall nym cred # evs \<and>
          filter advance_event evs = []) \<and>
   (if fst (updateName env nym cred s) = Inr True
    then \<exists>nm txid. db (snd (updateName env nym cred s)) = sql_set_updateTx (nm_getName env nm) txid (db s)
    else db (snd (updateName env nym cred s)) = db s)"
  by (simp add: updateName_def call_def getNameForNym_def split: prod.split sum.split) blast




lemma needUnlock_loop_frame:
  "needUnlock_loop env regs b s = (res, s') \<Longrightarrow>
     db s' = db s \<and> pendingRegs s' = pendingRegs s \<and> trace s' = trace s"
proof (induction regs arbitrary: b s)
  case Nil
  then show ?case by simp
next
  case (Cons entry entries)
  obtain r1 s1 where c1: "call (canActivate env entry) s = (r1, s1)" by fastforce
  note f1 = call_frame(1-3)[OF c1]
  obtain r2 s2 where c2: "call (isFinished env entry) s1 = (r2, s2)" by fastforce
  note f2 = call_frame(1-3)[OF c2]
  show ?case
  proof (cases r1)
    case (Inl e)
    with Cons.prems c1 f1 show ?thesis by simp
  next
    case can: (Inr can)
    show ?thesis
    proof (cases can)
      case True
      with Cons.prems c1 can have "needUnlock_loop env entries True s1 = (res, s')" by simp
      from Cons.IH[OF this] f1 show ?thesis by simp
    next
      case False
      show ?thesis
      proof (cases r2)
        case (Inl e)
        with Cons.prems c1 can False c2 f1 f2 show ?thesis by simp
      next
        case (Inr fin)
        with Cons.prems c1 can False c2
        have "needUnlock_loop env entries (if fin then True else b) s2 = (res, s')" by simp
        from Cons.IH[OF this] f1 f2 show ?thesis by simp
      qed
    qed
  qed
qed

lemma timerUpdate_loop_append:
  "timerUpdate_loop env (xs @ ys) s =
     (case timerUpdate_loop env xs s of
        (k1, s1) \<Rightarrow> (case timerUpdate_loop env ys s1 of (k2, s2) \<Rightarrow> (k1 @ k2, s2)))"
proof (induction xs arbitrary: s)
  case Nil
  then show ?case by (simp split: prod.split)
next
  case (Cons i xs)
  obtain r s1 where e: "timerUpdate_entry env i s = (r, s1)" by fastforce
  show ?case
    by (cases r) (simp_all add: e Cons.IH split: prod.split)
qed

lemma timerUpdate_entry_finished:
  assumes "isFinished env i (world s) = (Inr True, w1)"
    and "queryOne env (sql_select_nym_cred (getName env i) (sql_set_active (getName env i) (db s)))
           = Inr (nym, cred)"
    and "updateName env nym cred
           ((say ''Registration finished'' (s\<lparr>world := w1\<rparr>))
              \<lparr>db := sql_set_active (getName env i) (db s)\<rparr>) = (res, s')"
  shows "timerUpdate_entry env i s =
           (case res of
              Inl e \<Rightarrow> (Some i, catch_log e s')
            | Inr success \<Rightarrow>
                (None, say (if success then ''Issued name_update successfully.''
                            else ''name_update failed.'') s'))"
  using assms by (simp add: timerUpdate_entry_def call_def split: sum.split)

lemma timerUpdate_reaches_loop:
  assumes scan: "needUnlock_loop env (pendingRegs s) False (say ''Namecoin update timer called.'' s)
                   = (Inr need, s2)"
    and unl: "(if need then unlock env (say ''Need to unlock the wallet, trying to do it.'' s2)
               else Some (Inr (), say ''No operations necessary that need an unlocked wallet.'' s2))
                = Some (Inr (), s3)"
  shows "pendingRegs s3 = pendingRegs s \<and> db s3 = db s \<and>
         filter advance_event (trace s3) = filter advance_event (trace s) \<and>
         timerUpdate env s =
           Some (Inr (), (snd (timerUpdate_loop env (pendingRegs s) s3))
                           \<lparr>pendingRegs := fst (timerUpdate_loop env (pendingRegs s) s3)\<rparr>)"
proof -
  note f2 = needUnlock_loop_frame[OF scan]
  have f3: "pendingRegs s3 = pendingRegs s \<and> db s3 = db s \<and>
            filter advance_event (trace s3) = filter advance_event (trace s)"
  proof (cases need)
    case True
    with unl have "unlock env (say ''Need to unlock the wallet, trying to do it.'' s2) = Some (Inr (), s3)"
      by simp
    from unlock_frame[OF this] f2 show ?thesis
      by (auto simp: unlock_events_not_advance)
  next
    case False
    with unl f2 show ?thesis by auto
  qed
  have "timerUpdate env s =
           Some (Inr (), (snd (timerUpdate_loop env (pendingRegs s) s3))
                           \<lparr>pendingRegs := fst (timerUpdate_loop env (pendingRegs s) s3)\<rparr>)"
    using scan unl f3 by (simp add: timerUpdate_def Let_def split: prod.split)
  with f3 show ?thesis by simp
qed

text \<open>The verifier threads only the world through its calls.\<close>

lemma verify_try_frame:
  assumes "verify_try env nm hash source s1 = (res, s2)"
  shows "db s2 = db s1 \<and> pendingRegs s2 = pendingRegs s1 \<and> trace s2 = trace s1"
proof -
  obtain rj sj where cj: "call (nm_getJsonValue env nm) s1 = (rj, sj)" by fastforce
  note fj = call_frame(1-3)[OF cj]
  obtain ra sa where ca: "call (nm_getAddress env nm) sj = (ra, sa)" by fastforce
  note fa = call_frame(1-3)[OF ca]
  show ?thesis
  proof (cases rj)
    case (Inl e)
    with assms cj fj show ?thesis by (simp add: verify_try_def)
  next
    case val: (Inr val)
    show ?thesis
    proof (cases "jsonField env val ''nmcsig''")
      case (Inl e)
      with assms cj val fj show ?thesis by (simp add: verify_try_def)
    next
      case sigval: (Inr sigval)
      show ?thesis
      proof (cases "isString env sigval")
        case False
        with assms cj val sigval fj show ?thesis by (simp add: verify_try_def)
      next
        case True
        show ?thesis
        proof (cases ra)
          case (Inl e)
          with assms cj val sigval True ca fj fa show ?thesis by (simp add: verify_try_def)
        next
          case addr: (Inr addr)
          show ?thesis
          proof (cases "source = addr_getAddress env addr")
            case False
            with assms cj val sigval True ca addr fj fa show ?thesis
              by (simp add: verify_try_def)
          next
            case same: True
            with assms cj val sigval True ca addr
            have "call (verifySignature env addr hash (asString env sigval)) sa = (res, s2)"
              by (simp add: verify_try_def)
            from call_frame(1-3)[OF this] fj fa show ?thesis by simp
          qed
        qed
      qed
    qed
  qed
qed

lemma verify_try_True:
  assumes "verify_try env nm hash source s1 = (Inr True, s2)"
  shows "\<exists>val sigval addr w2 w3.
           nm_getJsonValue env nm (world s1) = (Inr val, w2) \<and>
           jsonField env val ''nmcsig'' = Inr sigval \<and> isString env sigval \<and>
           nm_getAddress env nm w2 = (Inr addr, w3) \<and>
           source = addr_getAddress env addr \<and>
           verifySignature env addr hash (asString env sigval) w3 = (Inr True, world s2)"
proof -
  obtain rj sj where cj: "call (nm_getJsonValue env nm) s1 = (rj, sj)" by fastforce
  note fj = call_frame(4)[OF cj]
  obtain ra sa where ca: "call (nm_getAddress env nm) sj = (ra, sa)" by fastforce
  note fa = call_frame(4)[OF ca]
  show ?thesis
  proof (cases rj)
    case (Inl e)
    with assms cj show ?thesis by (simp add: verify_try_def)
  next
    case val: (Inr val)
    show ?thesis
    proof (cases "jsonField env val ''nmcsig''")
      case (Inl e)
      with assms cj val show ?thesis by (simp add: verify_try_def)
    next
      case sigval: (Inr sigval)
      show ?thesis
      proof (cases "isString env sigval")
        case False
        with assms cj val sigval show ?thesis by (simp add: verify_try_def)
      next
        case True
        show ?thesis
        proof (cases ra)
          case (Inl e)
          with assms cj val sigval True ca show ?thesis by (simp add: verify_try_def)
        next
          case addr: (Inr addr)
          show ?thesis
          proof (cases "source = addr_getAddress env addr")
            case False
            with assms cj val sigval True ca addr show ?thesis
              by (simp add: verify_try_def)
          next
            case same: True
            with assms cj val sigval True ca addr
            have "call (verifySignature env addr hash (asString env sigval)) sa = (Inr True, s2)"
              by (simp add: verify_try_def)
            from call_frame(4)[OF this] fj fa val sigval True addr same show ?thesis by blast
          qed
        qed
      qed
    qed
  qed
qed


lemma timerUpdate_entry_not_finished:
  assumes nf: "fst (isFinished env i (world s)) \<noteq> Inr True"
  shows "\<exists>i' s1. timerUpdate_entry env i s = (Some i', s1) \<and>
           (i' = i \<and> db s1 = db s \<or>
            (\<exists>res w2 w3. activate env i w2 = (res, i', w3) \<and>
               (db s1 = db s \<or>
                db s1 = sql_set_regData (getName env i') (serialize env i') (db s))))"
proof -
  obtain r1 w1 where f: "isFinished env i (world s) = (r1, w1)" by fastforce
  obtain r2 w2 where c: "canActivate env i w1 = (r2, w2)" by fastforce
  obtain r3 i' w3 where a: "activate env i w2 = (r3, i', w3)" by (metis prod_cases3)
  show ?thesis
  proof (cases r1)
    case (Inl e)
    with f have "timerUpdate_entry env i s = (Some i, catch_log e (s\<lparr>world := w1\<rparr>))"
      by (simp add: timerUpdate_entry_def call_def)
    then show ?thesis by simp
  next
    case fin: (Inr fin)
    with nf f have nfin: "\<not> fin" by simp
    show ?thesis
    proof (cases r2)
      case (Inl e)
      with f fin nfin c
      have "timerUpdate_entry env i s = (Some i, catch_log e (s\<lparr>world := w2\<rparr>))"
        by (simp add: timerUpdate_entry_def call_def)
      then show ?thesis by simp
    next
      case can: (Inr can)
      show ?thesis
      proof (cases can)
        case False
        with f fin nfin c can
        have "timerUpdate_entry env i s = (Some i, s\<lparr>world := w2\<rparr>)"
          by (simp add: timerUpdate_entry_def call_def)
        then show ?thesis by simp
      next
        case True
        let ?s3 = "emit (ActivateCall (getName env i)) (say ''Activating'' (s\<lparr>world := w2\<rparr>))"
        show ?thesis
        proof (cases r3)
          case (Inl e)
          with f fin nfin c can True a
          have "timerUpdate_entry env i s = (Some i', catch_log e (?s3\<lparr>world := w3\<rparr>))"
            by (simp add: timerUpdate_entry_def call_def)
          moreover have "db (catch_log e (?s3\<lparr>world := w3\<rparr>)) = db s" by simp
          ultimately show ?thesis using a by blast
        next
          case (Inr u)
          with f fin nfin c can True a
          have "timerUpdate_entry env i s =
                  (Some i', ?s3\<lparr>world := w3,
                     db := sql_set_regData (getName env i') (serialize env i') (db ?s3)\<rparr>)"
            by (simp add: timerUpdate_entry_def call_def)
          moreover have "db (?s3\<lparr>world := w3,
                     db := sql_set_regData (getName env i') (serialize env i') (db ?s3)\<rparr>)
                  = sql_set_regData (getName env i') (serialize env i') (db s)" by simp
          ultimately show ?thesis using a by blast
        qed
      qed
    qed
  qed
qed

text \<open>One round of \<^verbatim>\<open>unlock\<close> in which the primitive is not refused for a wrong passphrase.\<close>

lemma unlock_primitive_returns:
  assumes prompt: "unlock_prompt env (say ''Trying to unlock the Namecoin wallet.'' s) = (Inr pwd, s3)"
    and prim: "walletUnlock env pwd (world s3) = (res, w4)"
    and other: "res \<noteq> Inl NmcUnlockFailure"
  shows "unlock env s =
           Some (Inr (),
             (case res of
                Inl e \<Rightarrow> catch_log e ((emit (UnlockPrimitive pwd) s3)\<lparr>world := w4\<rparr>)
              | Inr u \<Rightarrow> say ''Unlock successful (or not necessary).''
                          ((emit (UnlockPrimitive pwd) s3)\<lparr>world := w4\<rparr>)))"
  using assms by (subst unlock.simps) (simp add: call_def split: sum.split)

text \<open>With a primitive that refuses every passphrase, \<^verbatim>\<open>unlock\<close> never returns.\<close>

lemma unlock_stubborn_never_returns:
  "unlock env_stubborn s = None"
proof (cases "unlock env_stubborn s")
  case None
  then show ?thesis .
next
  case (Some y)
  have "env_stubborn \<noteq> env_stubborn"
  proof (rule unlock.raw_induct[where P = "\<lambda>env s y. env \<noteq> env_stubborn", OF _ Some], goal_cases)
    case (1 unlock' env s0 y)
    show ?case
    proof
      assume env: "env = env_stubborn"
      obtain r3 s3 where
        p: "unlock_prompt env (say ''Trying to unlock the Namecoin wallet.'' s0) = (r3, s3)"
        by fastforce
      from p env obtain pwd where r3: "r3 = Inr pwd"
        by (cases "world s0")
           (auto simp: unlock_prompt_def call_def env_stubborn_def demo_env_def)
      obtain s4 where
        c: "call (walletUnlock env pwd) (emit (UnlockPrimitive pwd) s3) = (Inl NmcUnlockFailure, s4)"
        using env by (simp add: call_def env_stubborn_def demo_env_def)
      from 1(2) p r3 c
      have "unlock' env (say ''Wrong passphrase, retrying.'' s4) = Some y"
        by simp
      from 1(1)[OF this] env show False by simp
    qed
  qed
  then show ?thesis by simp
qed

text \<open>The pending names under the statements that write the table.\<close>

lemma pending_names_set_updateTx [simp]:
  "pending_names (sql_set_updateTx n txid rows) = pending_names rows"
  by (induction rows) (simp_all add: pending_names_def sql_set_updateTx_def is_pending_row_def)

lemma pending_names_set_active [simp]:
  "pending_names (sql_set_active n rows) = filter (\<lambda>m. m \<noteq> n) (pending_names rows)"
  by (induction rows) (simp_all add: pending_names_def sql_set_active_def is_pending_row_def)

lemma pending_names_set_regData:
  "rows_have_payload rows \<Longrightarrow> pending_names (sql_set_regData n p rows) = pending_names rows"
  by (induction rows)
     (auto simp: pending_names_def sql_set_regData_def is_pending_row_def rows_have_payload_def)

lemma pending_names_insert [simp]:
  "pending_names (sql_insert n ny cr p rows) = pending_names rows @ [n]"
  by (simp add: pending_names_def sql_insert_def is_pending_row_def)

lemma rows_have_payload_set_updateTx [simp]:
  "rows_have_payload (sql_set_updateTx n txid rows) = rows_have_payload rows"
  by (induction rows) (simp_all add: rows_have_payload_def sql_set_updateTx_def)

lemma rows_have_payload_set_active:
  "rows_have_payload rows \<Longrightarrow> rows_have_payload (sql_set_active n rows)"
  by (induction rows) (simp_all add: rows_have_payload_def sql_set_active_def)

lemma rows_have_payload_set_regData:
  "rows_have_payload rows \<Longrightarrow> rows_have_payload (sql_set_regData n p rows)"
  by (induction rows) (simp_all add: rows_have_payload_def sql_set_regData_def)

lemma rows_have_payload_insert:
  "rows_have_payload rows \<Longrightarrow> rows_have_payload (sql_insert n ny cr p rows)"
  by (simp add: rows_have_payload_def sql_insert_def)

lemma select_after_set_active_nonempty:
  "n \<in> set (pending_names rows) \<Longrightarrow> sql_select_nym_cred n (sql_set_active n rows) \<noteq> []"
  by (induction rows)
     (auto simp: pending_names_def sql_select_nym_cred_def sql_set_active_def split: if_splits)

text \<open>The ledger and the pending rows through the second loop, the constructor and a registration.\<close>

lemma timerUpdate_loop_keeps_ledger:
  assumes keep: "\<forall>i w res i' w'. activate env i w = (res, i', w') \<longrightarrow> getName env i' = getName env i"
    and qo: "\<forall>recs. recs \<noteq> [] \<longrightarrow> (\<exists>rec. queryOne env recs = Inr rec)"
    and un: "\<forall>ny cr t e. fst (updateName env ny cr t) \<noteq> Inl e"
  shows "distinct (X @ ledger_names env regs) \<Longrightarrow> rows_have_payload (db s) \<Longrightarrow>
         X @ ledger_names env regs = pending_names (db s) \<Longrightarrow>
         X @ ledger_names env (fst (timerUpdate_loop env regs s))
           = pending_names (db (snd (timerUpdate_loop env regs s))) \<and>
         distinct (X @ ledger_names env (fst (timerUpdate_loop env regs s))) \<and>
         rows_have_payload (db (snd (timerUpdate_loop env regs s)))"
proof (induction regs arbitrary: s X)
  case Nil
  then show ?case by (simp add: ledger_names_def)
next
  case (Cons i rest)
  let ?n = "getName env i"
  obtain r s1 where e: "timerUpdate_entry env i s = (r, s1)" by fastforce
  from Cons.prems(1) have d: "?n \<notin> set X" "?n \<notin> set (ledger_names env rest)"
      "distinct (X @ ledger_names env rest)" "distinct ((X @ [?n]) @ ledger_names env rest)"
    by (auto simp: ledger_names_def)
  from Cons.prems(3) have p: "X @ ?n # ledger_names env rest = pending_names (db s)"
    by (simp add: ledger_names_def)
  show ?case
  proof (cases "fst (isFinished env i (world s)) = Inr True")
    case True
    then obtain w1 where fin: "isFinished env i (world s) = (Inr True, w1)"
      by (cases "isFinished env i (world s)") simp
    let ?s3 = "(say ''Registration finished'' (s\<lparr>world := w1\<rparr>))
                 \<lparr>db := sql_set_active ?n (db s)\<rparr>"
    from p have "?n \<in> set (pending_names (db s))" by (metis in_set_conv_decomp)
    then have "sql_select_nym_cred ?n (sql_set_active ?n (db s)) \<noteq> []"
      by (rule select_after_set_active_nonempty)
    with qo obtain ny cr where
      row: "queryOne env (sql_select_nym_cred ?n (sql_set_active ?n (db s))) = Inr (ny, cr)"
      by (metis surj_pair)
    obtain res s4 where upd: "updateName env ny cr ?s3 = (res, s4)" by fastforce
    with un obtain b where res: "res = Inr b"
      by (cases res) (metis fst_conv, simp)
    from timerUpdate_entry_finished[OF fin row upd] res e
    have r: "r = None"
      and s1: "s1 = say (if b then ''Issued name_update successfully.''
                         else ''name_update failed.'') s4"
      by simp_all
    from updateName_effect[of env ny cr ?s3] upd
    have "db s4 = sql_set_active ?n (db s) \<or>
          (\<exists>nm txid. db s4 = sql_set_updateTx (nm_getName env nm) txid (sql_set_active ?n (db s)))"
      by (auto split: if_splits)
    with s1 Cons.prems(2)
    have pn: "pending_names (db s1) = filter (\<lambda>m. m \<noteq> ?n) (pending_names (db s))"
      and rp: "rows_have_payload (db s1)"
      by (auto simp: rows_have_payload_set_active)
    have "filter (\<lambda>m. m \<noteq> ?n) (X @ ?n # ledger_names env rest) = X @ ledger_names env rest"
    proof -
      have "filter (\<lambda>m. m \<noteq> ?n) X = X"
        using d(1) by (simp add: filter_id_conv) blast
      moreover have "filter (\<lambda>m. m \<noteq> ?n) (ledger_names env rest) = ledger_names env rest"
        using d(2) by (simp add: filter_id_conv) blast
      ultimately show ?thesis by simp
    qed
    with pn p have "X @ ledger_names env rest = pending_names (db s1)" by simp
    note ih = Cons.IH[OF d(3) rp this]
    have eq: "timerUpdate_loop env (i # rest) s = timerUpdate_loop env rest s1"
      using e r by simp
    show ?thesis unfolding eq by (rule ih)
  next
    case False
    from timerUpdate_entry_not_finished[OF False] e obtain i' where
      r: "r = Some i'" and
      alt: "i' = i \<and> db s1 = db s \<or>
            (\<exists>res w2 w3. activate env i w2 = (res, i', w3) \<and>
               (db s1 = db s \<or>
                db s1 = sql_set_regData (getName env i') (serialize env i') (db s)))"
      by auto
    from alt keep have n': "getName env i' = ?n" by blast
    from alt Cons.prems(2) have pn: "pending_names (db s1) = pending_names (db s)"
      and rp: "rows_have_payload (db s1)"
      by (auto simp: pending_names_set_regData rows_have_payload_set_regData)
    have "(X @ [?n]) @ ledger_names env rest = pending_names (db s1)"
      using pn p by simp
    note ih = Cons.IH[OF d(4) rp this]
    have eq: "timerUpdate_loop env (i # rest) s =
                (i' # fst (timerUpdate_loop env rest s1), snd (timerUpdate_loop env rest s1))"
      using e r by (simp add: case_prod_beta)
    have names: "X @ ledger_names env (i' # fst (timerUpdate_loop env rest s1)) =
                   (X @ [?n]) @ ledger_names env (fst (timerUpdate_loop env rest s1))"
      using n' by (simp add: ledger_names_def)
    show ?thesis unfolding eq fst_conv snd_conv names by (rule ih)
  qed
qed

lemma addPendingRegs_names:
  "payloads_named env rows \<Longrightarrow>
   addPendingRegs env (sql_select_pending rows) regs = Inr regs' \<Longrightarrow>
   ledger_names env regs' = ledger_names env regs @ pending_names rows"
proof (induction rows arbitrary: regs)
  case Nil
  then show ?case
    by (simp add: sql_select_pending_def pending_names_def map_filter_simps)
next
  case (Cons r rows)
  have tl: "payloads_named env rows"
    using Cons.prems(1) by (simp add: payloads_named_def split: if_splits)
  show ?case
  proof (cases "is_pending_row r")
    case False
    with Cons.prems(2) have "addPendingRegs env (sql_select_pending rows) regs = Inr regs'"
      by (simp add: sql_select_pending_def map_filter_simps)
    from Cons.IH[OF tl this] False show ?thesis
      by (simp add: pending_names_def)
  next
    case True
    then obtain p where p: "r_regData r = Some p"
      by (auto simp: is_pending_row_def)
    with True have sel: "sql_select_pending (r # rows) = p # sql_select_pending rows"
      by (simp add: sql_select_pending_def map_filter_simps)
    show ?thesis
    proof (cases "deserialize env p")
      case (Inl e)
      with Cons.prems(2) sel show ?thesis by simp
    next
      case (Inr reg)
      with Cons.prems(1) True p have n: "getName env reg = r_name r"
        by (simp add: payloads_named_def)
      from Cons.prems(2) sel Inr
      have "addPendingRegs env (sql_select_pending rows) (regs @ [reg]) = Inr regs'"
        by simp
      from Cons.IH[OF tl this] True n show ?thesis
        by (simp add: pending_names_def ledger_names_def)
    qed
  qed
qed

lemma startRegistration_effect:
  assumes "startRegistration env nym cred s = Some s'"
  shows "(db s' = db s \<and> pendingRegs s' = pendingRegs s) \<or>
         (\<exists>nm reg w w'. registerName env nm w = (Inr reg, w') \<and>
            db s' = sql_insert (nm_getName env nm) nym cred (serialize env reg) (db s) \<and>
            pendingRegs s' = pendingRegs s @ [reg])"
proof -
  let ?s1 = "say ''Registering on the Namecoin blockchain.'' s"
  obtain r2 s2 where c2: "call (getNameForNym env nym cred) ?s1 = (r2, s2)" by fastforce
  note f2 = call_frame(1-3)[OF c2]
  show ?thesis
  proof (cases r2)
    case (Inl e)
    with assms c2 f2 show ?thesis by (auto simp: startRegistration_def Let_def)
  next
    case nm: (Inr nm)
    show ?thesis
    proof (cases "unlock env s2")
      case None
      with assms c2 nm show ?thesis by (simp add: startRegistration_def Let_def)
    next
      case (Some y)
      obtain r3 s3 where y: "y = (r3, s3)" by (cases y)
      from unlock_frame[OF Some] y f2 have f3: "db s3 = db s" "pendingRegs s3 = pendingRegs s"
        by simp_all
      show ?thesis
      proof (cases r3)
        case (Inl e)
        with assms c2 nm Some y f3 show ?thesis
          by (auto simp: startRegistration_def Let_def split: if_splits)
      next
        case (Inr u)
        obtain r4 s4 where
          c4: "call (registerName env nm) (emit (RegisterCall (nm_getName env nm)) s3) = (r4, s4)"
          by fastforce
        note f4 = call_frame[OF c4]
        show ?thesis
        proof (cases r4)
          case (Inl e)
          with assms c2 nm Some y Inr c4 f3 f4 show ?thesis
            by (auto simp: startRegistration_def Let_def)
        next
          case reg: (Inr reg)
          with assms c2 nm Some y Inr c4
          have "s' = s4\<lparr>db := sql_insert (nm_getName env nm) nym cred (serialize env reg) (db s4),
                          pendingRegs := pendingRegs s4 @ [reg]\<rparr>"
            by (simp add: startRegistration_def Let_def)
          with f3 f4 reg show ?thesis by auto
        qed
      qed
    qed
  qed
qed


section \<open>The claims\<close>

subsection \<open>C1: a finished binding\<close>

text \<open>
  C1, as stated, fails.  The claim: a binding found finished in a tick is removed from the
  ledger also when its update invocation fails.  Here the wallet is open, the one binding
  of the ledger is finished, and the query of the source address inside
  \<^verbatim>\<open>updateName\<close> throws an RPC error: the handler of the loop body logs it, the
  \<^verbatim>\<open>erase\<close> is skipped, and the binding is still in the ledger after the tick, while
  its row is already active.
\<close>

theorem finished_binding_kept_when_update_raises:
  "isFinished env_address_down ''Fot/abc'' False = (Inr True, False) \<and>
   timerUpdate env_address_down (demo_state False [''Fot/abc'']) =
     Some (Inr (),
       \<lparr>world = False,
        db = [\<lparr>r_name = ''ot/abc'', r_nym = ''N1'', r_cred = ''abc'', r_active = True,
               r_regData = None, r_updateTx = None\<rparr>],
        pendingRegs = [''Fot/abc''],
        trace = [Debug ''Namecoin update timer called.'',
                 Debug ''Need to unlock the wallet, trying to do it.'',
                 Debug ''Trying to unlock the Namecoin wallet.'',
                 UnlockPrimitive [],
                 Debug ''Unlock successful (or not necessary).'',
                 Debug ''Registration finished'',
                 UpdateNameCall ''N1'' ''abc'',
                 Debug ''NMC RPC Error'']\<rparr>)"
  by code_simp

text \<open>
  C1, amended.  In a tick that reaches its second loop, take the binding \<open>i\<close> of the
  ledger, with the entries \<open>pre\<close> before it and \<open>rest\<close> after it, that
  \<^verbatim>\<open>isFinished\<close> reports finished when the loop arrives at it and whose row lookup
  returns \<open>(nym, cred)\<close>.  Then \<^verbatim>\<open>updateName\<close> is entered exactly once for it,
  and the ledger after the tick is what the loop keeps of \<open>pre\<close> followed by what it
  keeps of \<open>rest\<close>: the binding itself is gone when the invocation returned true or
  false, and it stays, once, when the invocation threw.
\<close>

theorem finished_binding_update_once:
  assumes scan: "needUnlock_loop env (pendingRegs s) False (say ''Namecoin update timer called.'' s)
                   = (Inr need, s2)"
    and unl: "(if need then unlock env (say ''Need to unlock the wallet, trying to do it.'' s2)
               else Some (Inr (), say ''No operations necessary that need an unlocked wallet.'' s2))
                = Some (Inr (), s3)"
    and ledger: "pendingRegs s = pre @ i # rest"
    and pre: "timerUpdate_loop env pre s3 = (kept, s4)"
    and fin: "isFinished env i (world s4) = (Inr True, w5)"
    and row: "queryOne env (sql_select_nym_cred (getName env i)
                 (sql_set_active (getName env i) (db s4))) = Inr (nym, cred)"
    and upd: "updateName env nym cred
                ((say ''Registration finished'' (s4\<lparr>world := w5\<rparr>))
                   \<lparr>db := sql_set_active (getName env i) (db s4)\<rparr>) = (res, s6)"
    and rest: "timerUpdate_loop env rest
                 (case res of
                    Inl e \<Rightarrow> catch_log e s6
                  | Inr success \<Rightarrow> say (if success then ''Issued name_update successfully.''
                                         else ''name_update failed.'') s6) = (kept', s7)"
  shows "timerUpdate env s =
           Some (Inr (), s7\<lparr>pendingRegs := kept @ (case res of Inl e \<Rightarrow> [i] | Inr success \<Rightarrow> []) @ kept'\<rparr>)
         \<and> filter update_call (trace s6) = filter update_call (trace s4) @ [UpdateNameCall nym cred]"
proof -
  have entry: "timerUpdate_entry env i s4 =
           (case res of
              Inl e \<Rightarrow> (Some i, catch_log e s6)
            | Inr success \<Rightarrow>
                (None, say (if success then ''Issued name_update successfully.''
                            else ''name_update failed.'') s6))"
    using fin row upd by (rule timerUpdate_entry_finished)
  have tail: "timerUpdate_loop env (i # rest) s4 =
                ((case res of Inl e \<Rightarrow> [i] | Inr success \<Rightarrow> []) @ kept', s7)"
    using entry rest by (cases res) simp_all
  have loop: "timerUpdate_loop env (pendingRegs s) s3 =
                (kept @ (case res of Inl e \<Rightarrow> [i] | Inr success \<Rightarrow> []) @ kept', s7)"
    by (simp add: ledger timerUpdate_loop_append pre tail del: timerUpdate_loop.simps)
  from timerUpdate_reaches_loop[OF scan unl] loop
  have tick: "timerUpdate env s =
           Some (Inr (), s7\<lparr>pendingRegs := kept @ (case res of Inl e \<Rightarrow> [i] | Inr success \<Rightarrow> []) @ kept'\<rparr>)"
    by simp
  from updateName_effect[of env nym cred
      "(say ''Registration finished'' (s4\<lparr>world := w5\<rparr>))\<lparr>db := sql_set_active (getName env i) (db s4)\<rparr>"]
  obtain evs where "trace s6 = (trace s4 @ [Debug ''Registration finished'']) @ UpdateNameCall nym cred # evs"
     "filter advance_event evs = []"
    using upd by auto
  moreover have "filter update_call evs = []" if "filter advance_event evs = []" for evs
    using that
  proof (induction evs)
    case Nil
    then show ?case by simp
  next
    case (Cons ev evs)
    then show ?case by (cases ev) (simp_all split: if_splits)
  qed
  ultimately have "filter update_call (trace s6) = filter update_call (trace s4) @ [UpdateNameCall nym cred]"
    by simp
  with tick show ?thesis by simp
qed

text \<open>
  C1, witness: an open wallet and three bindings, the first to be activated, the second
  finished, the third waiting.  The second is gone after the tick and its row carries the
  transaction id.
\<close>

theorem finished_binding_update_once_witness:
  "timerUpdate demo_env (demo_state False [''Cot/xyz'', ''Fot/abc'', ''Rot/q'']) =
     Some (Inr (),
       \<lparr>world = False,
        db = [\<lparr>r_name = ''ot/xyz'', r_nym = ''N1'', r_cred = ''xyz'', r_active = False,
               r_regData = Some ''Aot/xyz'', r_updateTx = None\<rparr>,
              \<lparr>r_name = ''ot/abc'', r_nym = ''N1'', r_cred = ''abc'', r_active = True,
               r_regData = None, r_updateTx = Some ''tx1''\<rparr>,
              \<lparr>r_name = ''ot/q'', r_nym = ''N1'', r_cred = ''q'', r_active = False,
               r_regData = Some ''Rot/q'', r_updateTx = None\<rparr>],
        pendingRegs = [''Aot/xyz'', ''Rot/q''],
        trace = [Debug ''Namecoin update timer called.'',
                 Debug ''Need to unlock the wallet, trying to do it.'',
                 Debug ''Trying to unlock the Namecoin wallet.'',
                 UnlockPrimitive [],
                 Debug ''Unlock successful (or not necessary).'',
                 Debug ''Activating'', ActivateCall ''ot/xyz'',
                 Debug ''Registration finished'',
                 UpdateNameCall ''N1'' ''abc'',
                 Debug ''Issued name_update successfully.'']\<rparr>)"
proof -
  let ?s = "demo_state False [''Cot/xyz'', ''Fot/abc'', ''Rot/q'']"
  let ?s2 = "say ''Namecoin update timer called.'' ?s"
  let ?s3 = "say ''Unlock successful (or not necessary).''
               (emit (UnlockPrimitive [])
                  (say ''Trying to unlock the Namecoin wallet.''
                     (say ''Need to unlock the wallet, trying to do it.'' ?s2)))"
  let ?pre = "timerUpdate_loop demo_env [''Cot/xyz''] ?s3"
  let ?s5 = "(say ''Registration finished'' ((snd ?pre)\<lparr>world := False\<rparr>))
               \<lparr>db := sql_set_active (getName demo_env ''Fot/abc'') (db (snd ?pre))\<rparr>"
  let ?upd = "updateName demo_env ''N1'' ''abc'' ?s5"
  let ?rest = "timerUpdate_loop demo_env [''Rot/q'']
                 (say ''Issued name_update successfully.'' (snd ?upd))"
  have scan: "needUnlock_loop demo_env (pendingRegs ?s) False ?s2 = (Inr True, ?s2)"
    by code_simp
  have unl: "(if True then unlock demo_env (say ''Need to unlock the wallet, trying to do it.'' ?s2)
              else Some (Inr (), say ''No operations necessary that need an unlocked wallet.'' ?s2))
             = Some (Inr (), ?s3)"
    by code_simp
  have ledger: "pendingRegs ?s = [''Cot/xyz''] @ ''Fot/abc'' # [''Rot/q'']"
    by code_simp
  have pre: "?pre = (fst ?pre, snd ?pre)"
    by simp
  have fin: "isFinished demo_env ''Fot/abc'' (world (snd ?pre)) = (Inr True, False)"
    by code_simp
  have row: "queryOne demo_env (sql_select_nym_cred (getName demo_env ''Fot/abc'')
               (sql_set_active (getName demo_env ''Fot/abc'') (db (snd ?pre)))) = Inr (''N1'', ''abc'')"
    by code_simp
  have upd: "?upd = (Inr True, snd ?upd)"
    by code_simp
  have rest: "timerUpdate_loop demo_env [''Rot/q'']
                (case Inr True of
                   Inl e \<Rightarrow> catch_log e (snd ?upd)
                 | Inr success \<Rightarrow> say (if success then ''Issued name_update successfully.''
                                        else ''name_update failed.'') (snd ?upd))
              = (fst ?rest, snd ?rest)"
    by simp
  from finished_binding_update_once[OF scan unl ledger pre fin row upd rest]
  have "timerUpdate demo_env ?s =
          Some (Inr (), (snd ?rest)\<lparr>pendingRegs := fst ?pre @ [] @ fst ?rest\<rparr>)"
    by simp
  also have "(snd ?rest)\<lparr>pendingRegs := fst ?pre @ [] @ fst ?rest\<rparr> =
       \<lparr>world = False,
        db = [\<lparr>r_name = ''ot/xyz'', r_nym = ''N1'', r_cred = ''xyz'', r_active = False,
               r_regData = Some ''Aot/xyz'', r_updateTx = None\<rparr>,
              \<lparr>r_name = ''ot/abc'', r_nym = ''N1'', r_cred = ''abc'', r_active = True,
               r_regData = None, r_updateTx = Some ''tx1''\<rparr>,
              \<lparr>r_name = ''ot/q'', r_nym = ''N1'', r_cred = ''q'', r_active = False,
               r_regData = Some ''Rot/q'', r_updateTx = None\<rparr>],
        pendingRegs = [''Aot/xyz'', ''Rot/q''],
        trace = [Debug ''Namecoin update timer called.'',
                 Debug ''Need to unlock the wallet, trying to do it.'',
                 Debug ''Trying to unlock the Namecoin wallet.'',
                 UnlockPrimitive [],
                 Debug ''Unlock successful (or not necessary).'',
                 Debug ''Activating'', ActivateCall ''ot/xyz'',
                 Debug ''Registration finished'',
                 UpdateNameCall ''N1'' ''abc'',
                 Debug ''Issued name_update successfully.'']\<rparr>"
    by code_simp
  finally show ?thesis .
qed

subsection \<open>C2: exceptions leaving the tick\<close>

text \<open>
  C2 at its failing input.  The claim: a tick never lets an exception reach its caller,
  whatever the readiness predicates do.  The first loop of \<^verbatim>\<open>timerUpdate\<close> calls
  \<^verbatim>\<open>canActivate\<close> outside every \<^verbatim>\<open>try\<close>: with one waiting binding in the ledger
  and a registry connection that answers it with an RPC error, the error leaves
  \<^verbatim>\<open>timerUpdate\<close> before any binding is processed.
\<close>

theorem timerUpdate_scan_exception_escapes:
  "timerUpdate env_predicate_down (demo_state False [''Rot/abc'']) =
     Some (Inl RpcError,
           (demo_state False [''Rot/abc''])\<lparr>trace := [Debug ''Namecoin update timer called.'']\<rparr>)"
  by code_simp

subsection \<open>C3: the ledger and the pending rows\<close>

text \<open>
  C3, as stated, fails.  The claim: after every tick a binding is in the ledger if and
  only if its row has a payload and is not active.  Two registrations of the same name
  are in the ledger, the first finished, the second waiting, each with its pending row,
  so the ledger matches the store.  The tick finishes the first: the
  \<^verbatim>\<open>UPDATE ... WHERE name\<close> makes both rows active, the second binding stays in the
  ledger, and its name has no pending row any more.
\<close>

theorem ledger_differs_from_store_after_tick:
  "ledger_matches_store demo_env (demo_state False [''Fot/abc'', ''Rot/abc'']) \<and>
   timerUpdate demo_env (demo_state False [''Fot/abc'', ''Rot/abc'']) =
     Some (Inr (),
       \<lparr>world = False,
        db = [\<lparr>r_name = ''ot/abc'', r_nym = ''N1'', r_cred = ''abc'', r_active = True,
               r_regData = None, r_updateTx = Some ''tx1''\<rparr>,
              \<lparr>r_name = ''ot/abc'', r_nym = ''N1'', r_cred = ''abc'', r_active = True,
               r_regData = None, r_updateTx = Some ''tx1''\<rparr>],
        pendingRegs = [''Rot/abc''],
        trace = [Debug ''Namecoin update timer called.'',
                 Debug ''Need to unlock the wallet, trying to do it.'',
                 Debug ''Trying to unlock the Namecoin wallet.'',
                 UnlockPrimitive [],
                 Debug ''Unlock successful (or not necessary).'',
                 Debug ''Registration finished'',
                 UpdateNameCall ''N1'' ''abc'',
                 Debug ''Issued name_update successfully.'']\<rparr>) \<and>
   \<not> ledger_matches_store demo_env
       \<lparr>world = False,
        db = [\<lparr>r_name = ''ot/abc'', r_nym = ''N1'', r_cred = ''abc'', r_active = True,
               r_regData = None, r_updateTx = Some ''tx1''\<rparr>,
              \<lparr>r_name = ''ot/abc'', r_nym = ''N1'', r_cred = ''abc'', r_active = True,
               r_regData = None, r_updateTx = Some ''tx1''\<rparr>],
        pendingRegs = [''Rot/abc''],
        trace = [Debug ''Namecoin update timer called.'',
                 Debug ''Need to unlock the wallet, trying to do it.'',
                 Debug ''Trying to unlock the Namecoin wallet.'',
                 UnlockPrimitive [],
                 Debug ''Unlock successful (or not necessary).'',
                 Debug ''Registration finished'',
                 UpdateNameCall ''N1'' ''abc'',
                 Debug ''Issued name_update successfully.'']\<rparr>"
  by code_simp

text \<open>
  C3, amended.  The bindings of the ledger and the pending rows of the store correspond
  one to one, in order, each binding to the row of its name,
  \<^item> after the construction-time reload, when the payload of every pending row reads back
    as a registration of the row's name;
  \<^item> after \<^verbatim>\<open>startRegistration\<close>, when they did before and \<^verbatim>\<open>registerName\<close>
    gives the registration the name it was called with;
  \<^item> after a tick that reaches its second loop, when they did before, the names in the
    ledger are pairwise distinct, every row that is not active has a payload,
    \<^verbatim>\<open>activate\<close> keeps the name of a registration, \<^verbatim>\<open>queryOne\<close> returns a row
    whenever a row matches, and \<^verbatim>\<open>updateName\<close> does not throw; the names are then
    still distinct and every row that is not active still has a payload;
  \<^item> after a tick that the user cancels at the unlock, when they did before.
\<close>

theorem ledger_matches_store_kept:
  "(payloads_named env rows \<and> NMC_NameManager env w rows = Inr s0 \<longrightarrow>
      ledger_matches_store env s0)
   \<and> ((\<forall>nm w reg w'. registerName env nm w = (Inr reg, w') \<longrightarrow>
                       getName env reg = nm_getName env nm) \<and>
       ledger_matches_store env s \<and> startRegistration env nym cred s = Some s' \<longrightarrow>
      ledger_matches_store env s' \<and> (rows_have_payload (db s) \<longrightarrow> rows_have_payload (db s')))
   \<and> ((\<forall>i w res i' w'. activate env i w = (res, i', w') \<longrightarrow> getName env i' = getName env i) \<and>
       (\<forall>recs. recs \<noteq> [] \<longrightarrow> (\<exists>rec. queryOne env recs = Inr rec)) \<and>
       (\<forall>ny cr t e. fst (updateName env ny cr t) \<noteq> Inl e) \<and>
       ledger_matches_store env s \<and>
       distinct (ledger_names env (pendingRegs s)) \<and>
       rows_have_payload (db s) \<and>
       needUnlock_loop env (pendingRegs s) False (say ''Namecoin update timer called.'' s)
         = (Inr need, s2) \<and>
       (if need then unlock env (say ''Need to unlock the wallet, trying to do it.'' s2)
        else Some (Inr (), say ''No operations necessary that need an unlocked wallet.'' s2))
         = Some (Inr (), s3) \<longrightarrow>
      (\<exists>s''. timerUpdate env s = Some (Inr (), s'') \<and> ledger_matches_store env s'' \<and>
             distinct (ledger_names env (pendingRegs s'')) \<and> rows_have_payload (db s'')))
   \<and> (ledger_matches_store env s \<and>
       needUnlock_loop env (pendingRegs s) False (say ''Namecoin update timer called.'' s)
         = (Inr True, s2) \<and>
       unlock env (say ''Need to unlock the wallet, trying to do it.'' s2)
         = Some (Inl UnlockFailure, s3) \<longrightarrow>
      (\<exists>s''. timerUpdate env s = Some (Inr (), s'') \<and> ledger_matches_store env s''))"
proof -
  have A: "ledger_matches_store env s0"
    if pn: "payloads_named env rows" and c: "NMC_NameManager env w rows = Inr s0"
  proof -
    from c obtain regs where
      a: "addPendingRegs env (sql_select_pending rows) [] = Inr regs" and
      s0: "pendingRegs s0 = regs" "db s0 = rows"
      by (auto simp: NMC_NameManager_def split: sum.splits)
    from addPendingRegs_names[OF pn a] s0 show ?thesis
      by (simp add: ledger_matches_store_def ledger_names_def)
  qed
  have B: "ledger_matches_store env s' \<and> (rows_have_payload (db s) \<longrightarrow> rows_have_payload (db s'))"
    if rn: "\<forall>nm w reg w'. registerName env nm w = (Inr reg, w') \<longrightarrow>
                       getName env reg = nm_getName env nm"
      and inv: "ledger_matches_store env s" and st: "startRegistration env nym cred s = Some s'"
    using startRegistration_effect[OF st]
  proof (elim disjE exE conjE)
    assume "db s' = db s" "pendingRegs s' = pendingRegs s"
    with inv show ?thesis by (simp add: ledger_matches_store_def)
  next
    fix nm reg w w'
    assume r: "registerName env nm w = (Inr reg, w')"
      and d: "db s' = sql_insert (nm_getName env nm) nym cred (serialize env reg) (db s)"
      and l: "pendingRegs s' = pendingRegs s @ [reg]"
    from rn r have "getName env reg = nm_getName env nm" by blast
    with inv d l show ?thesis
      by (simp add: ledger_matches_store_def ledger_names_def rows_have_payload_insert)
  qed
  have C: "\<exists>s''. timerUpdate env s = Some (Inr (), s'') \<and> ledger_matches_store env s'' \<and>
             distinct (ledger_names env (pendingRegs s'')) \<and> rows_have_payload (db s'')"
    if keep: "\<forall>i w res i' w'. activate env i w = (res, i', w') \<longrightarrow> getName env i' = getName env i"
      and qo: "\<forall>recs. recs \<noteq> [] \<longrightarrow> (\<exists>rec. queryOne env recs = Inr rec)"
      and un: "\<forall>ny cr t e. fst (updateName env ny cr t) \<noteq> Inl e"
      and inv: "ledger_matches_store env s"
      and dist: "distinct (ledger_names env (pendingRegs s))"
      and rp: "rows_have_payload (db s)"
      and scan: "needUnlock_loop env (pendingRegs s) False (say ''Namecoin update timer called.'' s)
         = (Inr need, s2)"
      and unl: "(if need then unlock env (say ''Need to unlock the wallet, trying to do it.'' s2)
        else Some (Inr (), say ''No operations necessary that need an unlocked wallet.'' s2))
         = Some (Inr (), s3)"
  proof -
    note reach = timerUpdate_reaches_loop[OF scan unl]
    from reach rp have rp3: "rows_have_payload (db s3)" by simp
    from dist have dist': "distinct ([] @ ledger_names env (pendingRegs s))" by simp
    from inv reach
    have start: "[] @ ledger_names env (pendingRegs s) = pending_names (db s3)"
      by (simp add: ledger_matches_store_def)
    let ?k = "fst (timerUpdate_loop env (pendingRegs s) s3)"
    let ?s4 = "snd (timerUpdate_loop env (pendingRegs s) s3)"
    note loop = timerUpdate_loop_keeps_ledger[OF keep qo un dist' rp3 start, unfolded append_Nil]
    from loop[THEN conjunct1]
    have l1: "ledger_matches_store env (?s4\<lparr>pendingRegs := ?k\<rparr>)"
      unfolding ledger_matches_store_def by simp
    from loop[THEN conjunct2, THEN conjunct1]
    have l2: "distinct (ledger_names env (pendingRegs (?s4\<lparr>pendingRegs := ?k\<rparr>)))"
      by simp
    from loop[THEN conjunct2, THEN conjunct2]
    have l3: "rows_have_payload (db (?s4\<lparr>pendingRegs := ?k\<rparr>))"
      by simp
    from reach l1 l2 l3 show ?thesis by blast
  qed
  have D: "\<exists>s''. timerUpdate env s = Some (Inr (), s'') \<and> ledger_matches_store env s''"
    if inv: "ledger_matches_store env s"
      and scan: "needUnlock_loop env (pendingRegs s) False (say ''Namecoin update timer called.'' s)
         = (Inr True, s2)"
      and cancel: "unlock env (say ''Need to unlock the wallet, trying to do it.'' s2)
         = Some (Inl UnlockFailure, s3)"
  proof -
    note f2 = needUnlock_loop_frame[OF scan]
    from unlock_frame[OF cancel] f2
    have f3: "pendingRegs s3 = pendingRegs s" "db s3 = db s"
      by simp_all
    have "timerUpdate env s = Some (Inr (), say ''Unlock failed, cancelling the timer update.'' s3)"
      using scan cancel by (simp add: timerUpdate_def Let_def)
    moreover have "ledger_matches_store env (say ''Unlock failed, cancelling the timer update.'' s3)"
      using inv f3 by (simp add: ledger_matches_store_def)
    ultimately show ?thesis by blast
  qed
  from A B C D show ?thesis by blast
qed

text \<open>
  C3, witness: an open wallet and three bindings with three names, one to be activated,
  one finished, one waiting; the ledger matches the store before and after the tick.
\<close>

theorem ledger_matches_store_kept_witness:
  "ledger_matches_store demo_env (demo_state False [''Cot/xyz'', ''Fot/abc'', ''Rot/q'']) \<and>
   (\<exists>s''. timerUpdate demo_env (demo_state False [''Cot/xyz'', ''Fot/abc'', ''Rot/q''])
            = Some (Inr (), s'') \<and>
          ledger_matches_store demo_env s'' \<and>
          distinct (ledger_names demo_env (pendingRegs s'')) \<and> rows_have_payload (db s''))"
proof -
  let ?s = "demo_state False [''Cot/xyz'', ''Fot/abc'', ''Rot/q'']"
  let ?s2 = "say ''Namecoin update timer called.'' ?s"
  let ?s3 = "say ''Unlock successful (or not necessary).''
               (emit (UnlockPrimitive [])
                  (say ''Trying to unlock the Namecoin wallet.''
                     (say ''Need to unlock the wallet, trying to do it.'' ?s2)))"
  have keep: "\<forall>i w res i' w'. activate demo_env i w = (res, i', w') \<longrightarrow>
                getName demo_env i' = getName demo_env i"
    by (auto simp: demo_env_def)
  have qo: "\<forall>recs. recs \<noteq> [] \<longrightarrow> (\<exists>rec. queryOne demo_env recs = Inr rec)"
    by (simp add: demo_env_def split: list.split)
  have un: "\<forall>ny cr t e. fst (updateName demo_env ny cr t) \<noteq> Inl e"
    by (simp add: updateName_def getNameForNym_def call_def demo_env_def)
  have inv: "ledger_matches_store demo_env ?s"
    by code_simp
  have dist: "distinct (ledger_names demo_env (pendingRegs ?s))"
    by code_simp
  have rp: "rows_have_payload (db ?s)"
    by code_simp
  have scan: "needUnlock_loop demo_env (pendingRegs ?s) False ?s2 = (Inr True, ?s2)"
    by code_simp
  have unl: "(if True then unlock demo_env (say ''Need to unlock the wallet, trying to do it.'' ?s2)
              else Some (Inr (), say ''No operations necessary that need an unlocked wallet.'' ?s2))
             = Some (Inr (), ?s3)"
    by code_simp
  from ledger_matches_store_kept[where env = demo_env and s = ?s and need = True
      and ?s2.0 = ?s2 and ?s3.0 = ?s3]
  have "(\<forall>i w res i' w'. activate demo_env i w = (res, i', w') \<longrightarrow>
           getName demo_env i' = getName demo_env i) \<and>
       (\<forall>recs. recs \<noteq> [] \<longrightarrow> (\<exists>rec. queryOne demo_env recs = Inr rec)) \<and>
       (\<forall>ny cr t e. fst (updateName demo_env ny cr t) \<noteq> Inl e) \<and>
       ledger_matches_store demo_env ?s \<and>
       distinct (ledger_names demo_env (pendingRegs ?s)) \<and>
       rows_have_payload (db ?s) \<and>
       needUnlock_loop demo_env (pendingRegs ?s) False ?s2 = (Inr True, ?s2) \<and>
       (if True then unlock demo_env (say ''Need to unlock the wallet, trying to do it.'' ?s2)
        else Some (Inr (), say ''No operations necessary that need an unlocked wallet.'' ?s2))
         = Some (Inr (), ?s3) \<longrightarrow>
      (\<exists>s''. timerUpdate demo_env ?s = Some (Inr (), s'') \<and> ledger_matches_store demo_env s'' \<and>
             distinct (ledger_names demo_env (pendingRegs s'')) \<and> rows_have_payload (db s''))"
    by (rule conjunct2[THEN conjunct2, THEN conjunct1])
  with keep qo un inv dist rp scan unl show ?thesis
    by blast
qed

subsection \<open>C4: the verifier\<close>

text \<open>
  C4.  Let the query of the name for the credential hash return the name \<open>nm\<close>.  The
  verifier returns false when the value of the name is not found, when it is no JSON, when
  its field \<^verbatim>\<open>nmcsig\<close> is no string, and when the address of the name is not the claimed
  source; with a matching source it returns what the signature check returns; it returns
  true only on that last path with a valid signature; and it leaves the store and the
  ledger as they were.
\<close>

theorem verify_rejects_and_accepts:
  assumes q: "queryName env NMC_NS hash (world s) = (Inr nm, w1)"
  shows "(nm_getJsonValue env nm w1 = (Inl NameNotFound, w2) \<longrightarrow>
            verifyCredentialHashAtSource env hash source s = (Inr False, s\<lparr>world := w2\<rparr>))
       \<and> (nm_getJsonValue env nm w1 = (Inl JsonParseError, w2) \<longrightarrow>
            verifyCredentialHashAtSource env hash source s = (Inr False, s\<lparr>world := w2\<rparr>))
       \<and> (nm_getJsonValue env nm w1 = (Inr val, w2) \<and> jsonField env val ''nmcsig'' = Inr sigval \<and>
            \<not> isString env sigval \<longrightarrow>
            verifyCredentialHashAtSource env hash source s = (Inr False, s\<lparr>world := w2\<rparr>))
       \<and> (nm_getJsonValue env nm w1 = (Inr val, w2) \<and> jsonField env val ''nmcsig'' = Inr sigval \<and>
            isString env sigval \<and> nm_getAddress env nm w2 = (Inr addr, w3) \<and>
            source \<noteq> addr_getAddress env addr \<longrightarrow>
            verifyCredentialHashAtSource env hash source s = (Inr False, s\<lparr>world := w3\<rparr>))
       \<and> (nm_getJsonValue env nm w1 = (Inr val, w2) \<and> jsonField env val ''nmcsig'' = Inr sigval \<and>
            isString env sigval \<and> nm_getAddress env nm w2 = (Inr addr, w3) \<and>
            source = addr_getAddress env addr \<and>
            verifySignature env addr hash (asString env sigval) w3 = (Inr ok, w4) \<longrightarrow>
            verifyCredentialHashAtSource env hash source s = (Inr ok, s\<lparr>world := w4\<rparr>))
       \<and> (\<forall>s'. verifyCredentialHashAtSource env hash source s = (Inr True, s') \<longrightarrow>
            (\<exists>val sigval addr w2 w3.
               nm_getJsonValue env nm w1 = (Inr val, w2) \<and>
               jsonField env val ''nmcsig'' = Inr sigval \<and> isString env sigval \<and>
               nm_getAddress env nm w2 = (Inr addr, w3) \<and>
               source = addr_getAddress env addr \<and>
               verifySignature env addr hash (asString env sigval) w3 = (Inr True, world s')))
       \<and> (\<forall>res s'. verifyCredentialHashAtSource env hash source s = (res, s') \<longrightarrow>
            db s' = db s \<and> pendingRegs s' = pendingRegs s)"
proof -
  have cq: "call (queryName env NMC_NS hash) s = (Inr nm, s\<lparr>world := w1\<rparr>)"
    using q by (rule call_world)
  have A: "nm_getJsonValue env nm w1 = (Inl NameNotFound, w2) \<longrightarrow>
            verifyCredentialHashAtSource env hash source s = (Inr False, s\<lparr>world := w2\<rparr>)"
    using q by (simp add: verifyCredentialHashAtSource_def verify_try_def call_def)
  have B: "nm_getJsonValue env nm w1 = (Inl JsonParseError, w2) \<longrightarrow>
            verifyCredentialHashAtSource env hash source s = (Inr False, s\<lparr>world := w2\<rparr>)"
    using q by (simp add: verifyCredentialHashAtSource_def verify_try_def call_def)
  have C: "nm_getJsonValue env nm w1 = (Inr val, w2) \<and> jsonField env val ''nmcsig'' = Inr sigval \<and>
            \<not> isString env sigval \<longrightarrow>
            verifyCredentialHashAtSource env hash source s = (Inr False, s\<lparr>world := w2\<rparr>)"
    using q by (simp add: verifyCredentialHashAtSource_def verify_try_def call_def)
  have D: "nm_getJsonValue env nm w1 = (Inr val, w2) \<and> jsonField env val ''nmcsig'' = Inr sigval \<and>
            isString env sigval \<and> nm_getAddress env nm w2 = (Inr addr, w3) \<and>
            source \<noteq> addr_getAddress env addr \<longrightarrow>
            verifyCredentialHashAtSource env hash source s = (Inr False, s\<lparr>world := w3\<rparr>)"
    using q by (simp add: verifyCredentialHashAtSource_def verify_try_def call_def)
  have E: "nm_getJsonValue env nm w1 = (Inr val, w2) \<and> jsonField env val ''nmcsig'' = Inr sigval \<and>
            isString env sigval \<and> nm_getAddress env nm w2 = (Inr addr, w3) \<and>
            source = addr_getAddress env addr \<and>
            verifySignature env addr hash (asString env sigval) w3 = (Inr ok, w4) \<longrightarrow>
            verifyCredentialHashAtSource env hash source s = (Inr ok, s\<lparr>world := w4\<rparr>)"
    using q by (simp add: verifyCredentialHashAtSource_def verify_try_def call_def)
  have F: "\<forall>s'. verifyCredentialHashAtSource env hash source s = (Inr True, s') \<longrightarrow>
            (\<exists>val sigval addr w2 w3.
               nm_getJsonValue env nm w1 = (Inr val, w2) \<and>
               jsonField env val ''nmcsig'' = Inr sigval \<and> isString env sigval \<and>
               nm_getAddress env nm w2 = (Inr addr, w3) \<and>
               source = addr_getAddress env addr \<and>
               verifySignature env addr hash (asString env sigval) w3 = (Inr True, world s'))"
  proof (intro allI impI)
    fix s'
    assume v: "verifyCredentialHashAtSource env hash source s = (Inr True, s')"
    obtain rt st where t: "verify_try env nm hash source (s\<lparr>world := w1\<rparr>) = (rt, st)"
      by fastforce
    from v t cq have "rt = Inr True \<and> st = s'"
      by (cases rt) (auto simp: verifyCredentialHashAtSource_def split: if_splits)
    with t have "verify_try env nm hash source (s\<lparr>world := w1\<rparr>) = (Inr True, s')" by simp
    from verify_try_True[OF this] show "\<exists>val sigval addr w2 w3.
               nm_getJsonValue env nm w1 = (Inr val, w2) \<and>
               jsonField env val ''nmcsig'' = Inr sigval \<and> isString env sigval \<and>
               nm_getAddress env nm w2 = (Inr addr, w3) \<and>
               source = addr_getAddress env addr \<and>
               verifySignature env addr hash (asString env sigval) w3 = (Inr True, world s')"
      by simp
  qed
  have G: "\<forall>res s'. verifyCredentialHashAtSource env hash source s = (res, s') \<longrightarrow>
            db s' = db s \<and> pendingRegs s' = pendingRegs s"
  proof (intro allI impI)
    fix res s'
    assume v: "verifyCredentialHashAtSource env hash source s = (res, s')"
    obtain rt st where t: "verify_try env nm hash source (s\<lparr>world := w1\<rparr>) = (rt, st)"
      by fastforce
    from v t cq have "st = s'"
      by (cases rt) (auto simp: verifyCredentialHashAtSource_def split: if_splits)
    with verify_try_frame[OF t]
    show "db s' = db s \<and> pendingRegs s' = pendingRegs s" by simp
  qed
  from A B C D E F G show ?thesis by blast
qed

text \<open>
  C4, witness: the name \<^verbatim>\<open>ot/abc\<close> carries a valid signature and belongs to the
  address \<^verbatim>\<open>N1\<close>; the source \<^verbatim>\<open>N1\<close> is accepted and the source \<^verbatim>\<open>N2\<close> is
  rejected.
\<close>

theorem verify_rejects_and_accepts_witness:
  "verifyCredentialHashAtSource demo_env ''abc'' ''N1'' (demo_state False []) =
     (Inr True, (demo_state False [])\<lparr>world := False\<rparr>)
   \<and> verifyCredentialHashAtSource demo_env ''abc'' ''N2'' (demo_state False []) =
     (Inr False, (demo_state False [])\<lparr>world := False\<rparr>)"
proof -
  have q: "queryName demo_env NMC_NS ''abc'' (world (demo_state False [])) = (Inr ''ot/abc'', False)"
    by code_simp
  have j: "nm_getJsonValue demo_env ''ot/abc'' False = (Inr (Some ''sig:abc''), False)"
    by code_simp
  have f: "jsonField demo_env (Some ''sig:abc'') ''nmcsig'' = Inr (Some ''sig:abc'')"
    by code_simp
  have i: "isString demo_env (Some ''sig:abc'')"
    by code_simp
  have a: "nm_getAddress demo_env ''ot/abc'' False = (Inr ''N1'', False)"
    by code_simp
  have same: "''N1'' = addr_getAddress demo_env ''N1''" and other: "''N2'' \<noteq> addr_getAddress demo_env ''N1''"
    by code_simp+
  have v: "verifySignature demo_env ''N1'' ''abc'' (asString demo_env (Some ''sig:abc'')) False
             = (Inr True, False)"
    by code_simp
  from verify_rejects_and_accepts[OF q, where source = "''N1''" and val = "Some ''sig:abc''"
      and sigval = "Some ''sig:abc''" and addr = "''N1''" and ok = True
      and ?w2.0 = False and ?w3.0 = False and ?w4.0 = False] j f i a same v
  have yes: "verifyCredentialHashAtSource demo_env ''abc'' ''N1'' (demo_state False []) =
     (Inr True, (demo_state False [])\<lparr>world := False\<rparr>)"
    by blast
  from verify_rejects_and_accepts[OF q, where source = "''N2''" and val = "Some ''sig:abc''"
      and sigval = "Some ''sig:abc''" and addr = "''N1''"
      and ?w2.0 = False and ?w3.0 = False] j f i a other
  have no: "verifyCredentialHashAtSource demo_env ''abc'' ''N2'' (demo_state False []) =
     (Inr False, (demo_state False [])\<lparr>world := False\<rparr>)"
    by blast
  from yes no show ?thesis by simp
qed

subsection \<open>C5: a tick cancelled at the unlock\<close>

text \<open>
  C5.  When the first loop of a tick finds that the wallet must be unlocked and
  \<^verbatim>\<open>unlock\<close> ends with the user's cancel, the tick returns at once: the ledger and
  every row of the store are what they were, and no binding was registered, activated or
  updated.
\<close>

theorem timerUpdate_unlock_cancelled:
  assumes scan: "needUnlock_loop env (pendingRegs s) False (say ''Namecoin update timer called.'' s)
                   = (Inr True, s2)"
    and cancel: "unlock env (say ''Need to unlock the wallet, trying to do it.'' s2)
                   = Some (Inl UnlockFailure, s3)"
  shows "timerUpdate env s = Some (Inr (), say ''Unlock failed, cancelling the timer update.'' s3)
         \<and> pendingRegs (say ''Unlock failed, cancelling the timer update.'' s3) = pendingRegs s
         \<and> db (say ''Unlock failed, cancelling the timer update.'' s3) = db s
         \<and> filter advance_event (trace (say ''Unlock failed, cancelling the timer update.'' s3))
             = filter advance_event (trace s)"
proof -
  note f2 = needUnlock_loop_frame[OF scan]
  from unlock_frame[OF cancel] f2
  have f3: "pendingRegs s3 = pendingRegs s" "db s3 = db s"
           "filter advance_event (trace s3) = filter advance_event (trace s)"
    by (auto simp: unlock_events_not_advance)
  have "timerUpdate env s = Some (Inr (), say ''Unlock failed, cancelling the timer update.'' s3)"
    using scan cancel by (simp add: timerUpdate_def Let_def)
  with f3 show ?thesis by simp
qed

text \<open>
  C5, witness: a locked wallet, two bindings that can be activated, and a user who
  presses cancel.  Only the trace grows.
\<close>

theorem timerUpdate_unlock_cancelled_witness:
  "timerUpdate env_cancel (demo_state True [''Cot/abc'', ''Cot/xyz'']) =
     Some (Inr (),
       (demo_state True [''Cot/abc'', ''Cot/xyz''])
         \<lparr>trace := [Debug ''Namecoin update timer called.'',
                    Debug ''Need to unlock the wallet, trying to do it.'',
                    Debug ''Trying to unlock the Namecoin wallet.'',
                    PromptShown,
                    Debug ''Wallet unlock was cancelled.'',
                    Debug ''Unlock failed, cancelling the timer update.'']\<rparr>)"
proof -
  let ?s = "demo_state True [''Cot/abc'', ''Cot/xyz'']"
  let ?s2 = "say ''Namecoin update timer called.'' ?s"
  let ?s3 = "say ''Wallet unlock was cancelled.''
               (emit PromptShown
                  (say ''Trying to unlock the Namecoin wallet.''
                     (say ''Need to unlock the wallet, trying to do it.'' ?s2)))"
  have scan: "needUnlock_loop env_cancel (pendingRegs ?s) False ?s2 = (Inr True, ?s2)"
    by code_simp
  have cancel: "unlock env_cancel (say ''Need to unlock the wallet, trying to do it.'' ?s2)
                  = Some (Inl UnlockFailure, ?s3)"
    by code_simp
  from timerUpdate_unlock_cancelled[OF scan cancel]
  have "timerUpdate env_cancel ?s =
          Some (Inr (), say ''Unlock failed, cancelling the timer update.'' ?s3)"
    by simp
  also have "say ''Unlock failed, cancelling the timer update.'' ?s3 =
       (demo_state True [''Cot/abc'', ''Cot/xyz''])
         \<lparr>trace := [Debug ''Namecoin update timer called.'',
                    Debug ''Need to unlock the wallet, trying to do it.'',
                    Debug ''Trying to unlock the Namecoin wallet.'',
                    PromptShown,
                    Debug ''Wallet unlock was cancelled.'',
                    Debug ''Unlock failed, cancelling the timer update.'']\<rparr>"
    by code_simp
  finally show ?thesis .
qed

subsection \<open>C6: a transport failure of the unlock primitive\<close>

text \<open>
  C6, as stated, fails.  The claim: a transport failure of the unlock primitive aborts the
  current operation.  The wallet is locked, the user enters the passphrase, and the
  primitive throws an RPC error: \<^verbatim>\<open>unlock\<close> logs it and returns, and the tick goes
  on to its second loop, where it activates the binding and rewrites its payload.
\<close>

theorem tick_goes_on_after_unlock_rpc_error:
  "timerUpdate env_unlock_down (demo_state True [''Cot/abc'']) =
     Some (Inr (),
       \<lparr>world = True,
        db = [\<lparr>r_name = ''ot/abc'', r_nym = ''N1'', r_cred = ''abc'', r_active = False,
               r_regData = Some ''Aot/abc'', r_updateTx = None\<rparr>],
        pendingRegs = [''Aot/abc''],
        trace = [Debug ''Namecoin update timer called.'',
                 Debug ''Need to unlock the wallet, trying to do it.'',
                 Debug ''Trying to unlock the Namecoin wallet.'',
                 PromptShown,
                 UnlockPrimitive ''secret'',
                 Debug ''NMC RPC Error'',
                 Debug ''Activating'',
                 ActivateCall ''ot/abc'']\<rparr>)"
  by code_simp

text \<open>
  C6, amended.  When the unlock primitive, called with the passphrase \<open>pwd\<close>, throws
  anything but the wrong-passphrase failure, \<^verbatim>\<open>unlock\<close> logs the failure and returns
  normally, and the operation goes on from there: a tick runs its second loop over the
  whole ledger, and \<^verbatim>\<open>startRegistration\<close> calls \<^verbatim>\<open>registerName\<close> and, when that
  returns, inserts the row and appends the binding.
\<close>

theorem unlock_transport_failure_goes_on:
  assumes prompt: "unlock_prompt env (say ''Trying to unlock the Namecoin wallet.'' s) = (Inr pwd, s3)"
    and prim: "walletUnlock env pwd (world s3) = (Inl e, w4)"
    and other: "e \<noteq> NmcUnlockFailure"
  shows "unlock env s = Some (Inr (), catch_log e ((emit (UnlockPrimitive pwd) s3)\<lparr>world := w4\<rparr>))
    \<and> (\<forall>t t2.
          needUnlock_loop env (pendingRegs t) False (say ''Namecoin update timer called.'' t)
            = (Inr True, t2) \<and>
          s = say ''Need to unlock the wallet, trying to do it.'' t2 \<longrightarrow>
          timerUpdate env t =
            Some (Inr (),
              (snd (timerUpdate_loop env (pendingRegs t)
                      (catch_log e ((emit (UnlockPrimitive pwd) s3)\<lparr>world := w4\<rparr>))))
              \<lparr>pendingRegs :=
                 fst (timerUpdate_loop env (pendingRegs t)
                        (catch_log e ((emit (UnlockPrimitive pwd) s3)\<lparr>world := w4\<rparr>)))\<rparr>))
    \<and> (\<forall>t nym cred nm w1.
          getNameForNym env nym cred (world t) = (Inr nm, w1) \<and>
          s = (say ''Registering on the Namecoin blockchain.'' t)\<lparr>world := w1\<rparr> \<longrightarrow>
          startRegistration env nym cred t =
            (case call (registerName env nm)
                    (emit (RegisterCall (nm_getName env nm))
                       (catch_log e ((emit (UnlockPrimitive pwd) s3)\<lparr>world := w4\<rparr>))) of
               (Inl e', s6) \<Rightarrow> Some (catch_log e' s6)
             | (Inr reg, s6) \<Rightarrow>
                 Some (s6\<lparr>db := sql_insert (nm_getName env nm) nym cred (serialize env reg) (db s6),
                          pendingRegs := pendingRegs s6 @ [reg]\<rparr>)))"
proof -
  let ?s5 = "catch_log e ((emit (UnlockPrimitive pwd) s3)\<lparr>world := w4\<rparr>)"
  have u: "unlock env s = Some (Inr (), ?s5)"
    using unlock_primitive_returns[OF prompt prim] other by simp
  have tick: "timerUpdate env t =
            Some (Inr (), (snd (timerUpdate_loop env (pendingRegs t) ?s5))
              \<lparr>pendingRegs := fst (timerUpdate_loop env (pendingRegs t) ?s5)\<rparr>)"
    if scan: "needUnlock_loop env (pendingRegs t) False (say ''Namecoin update timer called.'' t)
            = (Inr True, t2)"
      and st: "s = say ''Need to unlock the wallet, trying to do it.'' t2" for t t2
  proof -
    have unl: "(if True then unlock env (say ''Need to unlock the wallet, trying to do it.'' t2)
               else Some (Inr (), say ''No operations necessary that need an unlocked wallet.'' t2))
                = Some (Inr (), ?s5)"
      using u st by simp
    from timerUpdate_reaches_loop[OF scan unl] show ?thesis by simp
  qed
  have reg: "startRegistration env nym cred t =
            (case call (registerName env nm) (emit (RegisterCall (nm_getName env nm)) ?s5) of
               (Inl e', s6) \<Rightarrow> Some (catch_log e' s6)
             | (Inr reg, s6) \<Rightarrow>
                 Some (s6\<lparr>db := sql_insert (nm_getName env nm) nym cred (serialize env reg) (db s6),
                          pendingRegs := pendingRegs s6 @ [reg]\<rparr>))"
    if nm: "getNameForNym env nym cred (world t) = (Inr nm, w1)"
      and st: "s = (say ''Registering on the Namecoin blockchain.'' t)\<lparr>world := w1\<rparr>"
    for t nym cred nm w1
    using nm u unfolding st by (simp add: startRegistration_def Let_def call_def)
  from u tick reg show ?thesis by blast
qed

text \<open>
  C6, witness: a locked wallet, the passphrase entered, an RPC error of the primitive;
  \<^verbatim>\<open>unlock\<close> returns and the registration of \<^verbatim>\<open>abc\<close> is carried out.
\<close>

theorem unlock_transport_failure_goes_on_witness:
  "unlock env_unlock_down (say ''Registering on the Namecoin blockchain.'' (demo_state True [])) =
     Some (Inr (),
       (demo_state True [])
         \<lparr>trace := [Debug ''Registering on the Namecoin blockchain.'',
                    Debug ''Trying to unlock the Namecoin wallet.'',
                    PromptShown,
                    UnlockPrimitive ''secret'',
                    Debug ''NMC RPC Error'']\<rparr>)
   \<and> startRegistration env_unlock_down ''N1'' ''abc'' (demo_state True []) =
     Some \<lparr>world = True,
           db = [\<lparr>r_name = ''ot/abc'', r_nym = ''N1'', r_cred = ''abc'', r_active = False,
                  r_regData = Some ''Rot/abc'', r_updateTx = None\<rparr>],
           pendingRegs = [''Rot/abc''],
           trace = [Debug ''Registering on the Namecoin blockchain.'',
                    Debug ''Trying to unlock the Namecoin wallet.'',
                    PromptShown,
                    UnlockPrimitive ''secret'',
                    Debug ''NMC RPC Error'',
                    RegisterCall ''ot/abc'']\<rparr>"
proof -
  let ?t = "demo_state True []"
  let ?s = "say ''Registering on the Namecoin blockchain.'' ?t"
  let ?s3 = "emit PromptShown (say ''Trying to unlock the Namecoin wallet.'' ?s)"
  let ?s5 = "catch_log RpcError ((emit (UnlockPrimitive ''secret'') ?s3)\<lparr>world := True\<rparr>)"
  have prompt: "unlock_prompt env_unlock_down (say ''Trying to unlock the Namecoin wallet.'' ?s)
                  = (Inr ''secret'', ?s3)"
    by code_simp
  have prim: "walletUnlock env_unlock_down ''secret'' (world ?s3) = (Inl RpcError, True)"
    by code_simp
  have other: "RpcError \<noteq> NmcUnlockFailure"
    by simp
  have nm: "getNameForNym env_unlock_down ''N1'' ''abc'' (world ?t) = (Inr ''ot/abc'', True)"
    by code_simp
  have st: "?s = (say ''Registering on the Namecoin blockchain.'' ?t)\<lparr>world := True\<rparr>"
    by code_simp
  note goes_on = unlock_transport_failure_goes_on[OF prompt prim other]
  from goes_on have "unlock env_unlock_down ?s = Some (Inr (), ?s5)"
    by blast
  moreover have "?s5 = (demo_state True [])
         \<lparr>trace := [Debug ''Registering on the Namecoin blockchain.'',
                    Debug ''Trying to unlock the Namecoin wallet.'',
                    PromptShown,
                    UnlockPrimitive ''secret'',
                    Debug ''NMC RPC Error'']\<rparr>"
    by code_simp
  moreover from goes_on nm st
  have "startRegistration env_unlock_down ''N1'' ''abc'' ?t =
            (case call (registerName env_unlock_down ''ot/abc'')
                    (emit (RegisterCall (nm_getName env_unlock_down ''ot/abc'')) ?s5) of
               (Inl e', s6) \<Rightarrow> Some (catch_log e' s6)
             | (Inr reg, s6) \<Rightarrow>
                 Some (s6\<lparr>db := sql_insert (nm_getName env_unlock_down ''ot/abc'') ''N1'' ''abc''
                                   (serialize env_unlock_down reg) (db s6),
                          pendingRegs := pendingRegs s6 @ [reg]\<rparr>))"
    by blast
  moreover have "(case call (registerName env_unlock_down ''ot/abc'')
                    (emit (RegisterCall (nm_getName env_unlock_down ''ot/abc'')) ?s5) of
               (Inl e', s6) \<Rightarrow> Some (catch_log e' s6)
             | (Inr reg, s6) \<Rightarrow>
                 Some (s6\<lparr>db := sql_insert (nm_getName env_unlock_down ''ot/abc'') ''N1'' ''abc''
                                   (serialize env_unlock_down reg) (db s6),
                          pendingRegs := pendingRegs s6 @ [reg]\<rparr>)) =
     Some \<lparr>world = True,
           db = [\<lparr>r_name = ''ot/abc'', r_nym = ''N1'', r_cred = ''abc'', r_active = False,
                  r_regData = Some ''Rot/abc'', r_updateTx = None\<rparr>],
           pendingRegs = [''Rot/abc''],
           trace = [Debug ''Registering on the Namecoin blockchain.'',
                    Debug ''Trying to unlock the Namecoin wallet.'',
                    PromptShown,
                    UnlockPrimitive ''secret'',
                    Debug ''NMC RPC Error'',
                    RegisterCall ''ot/abc'']\<rparr>"
    by code_simp
  ultimately show ?thesis by simp
qed

subsection \<open>C7: unlock when no passphrase is needed\<close>

text \<open>
  C7, as stated, fails.  The claim: when the wallet needs no passphrase, \<^verbatim>\<open>unlock\<close>
  makes no call to the unlock primitive.  With an open wallet the dialog is skipped, and
  the primitive is called all the same, with the empty passphrase.
\<close>

theorem unlock_calls_primitive_when_not_needed:
  "needWalletPassphrase demo_env (world (demo_state False [])) = (Inr False, False) \<and>
   unlock demo_env (demo_state False []) =
     Some (Inr (),
       (demo_state False [])
         \<lparr>trace := [Debug ''Trying to unlock the Namecoin wallet.'',
                    UnlockPrimitive [],
                    Debug ''Unlock successful (or not necessary).'']\<rparr>)"
  by code_simp

text \<open>
  C7, amended.  When the wallet needs no passphrase, \<^verbatim>\<open>unlock\<close> shows no dialog
  before it calls the unlock primitive, and it calls it with the empty passphrase.  If
  that call returns, or throws anything but the wrong-passphrase failure, \<^verbatim>\<open>unlock\<close>
  returns normally at once: no dialog was shown, the primitive was called once, and the
  trace has three more lines.  If the primitive refuses the empty passphrase as wrong,
  \<^verbatim>\<open>unlock\<close> logs that and starts over from the passphrase query: it is then the
  call of \<^verbatim>\<open>unlock\<close> in the state the primitive left, which may show the dialog,
  call the primitive again, or never return.  Whenever \<^verbatim>\<open>unlock\<close> returns, store
  and ledger are what they were.
\<close>

theorem unlock_without_passphrase:
  assumes need: "needWalletPassphrase env (world s) = (Inr False, w1)"
    and prim: "walletUnlock env [] w1 = (res, w2)"
  shows "(res \<noteq> Inl NmcUnlockFailure \<longrightarrow>
            unlock env s =
              Some (Inr (),
                s\<lparr>world := w2,
                  trace := trace s @
                    [Debug ''Trying to unlock the Namecoin wallet.'',
                     UnlockPrimitive [],
                     Debug (case res of
                              Inr u \<Rightarrow> ''Unlock successful (or not necessary).''
                            | Inl e \<Rightarrow> if e = RpcError then ''NMC RPC Error'' else ''Error'')]\<rparr>))
       \<and> (res = Inl NmcUnlockFailure \<longrightarrow>
            unlock env s =
              unlock env
                (s\<lparr>world := w2,
                   trace := trace s @
                     [Debug ''Trying to unlock the Namecoin wallet.'',
                      UnlockPrimitive [],
                      Debug ''Wrong passphrase, retrying.'']\<rparr>))
       \<and> (\<forall>y. unlock env s = Some y \<longrightarrow>
            db (snd y) = db s \<and> pendingRegs (snd y) = pendingRegs s)"
proof -
  have prompt: "unlock_prompt env (say ''Trying to unlock the Namecoin wallet.'' s)
                  = (Inr [], (say ''Trying to unlock the Namecoin wallet.'' s)\<lparr>world := w1\<rparr>)"
    using need by (simp add: unlock_prompt_def call_def)
  have prim': "walletUnlock env [] (world ((say ''Trying to unlock the Namecoin wallet.'' s)\<lparr>world := w1\<rparr>))
                 = (res, w2)"
    using prim by simp
  have A: "unlock env s =
              Some (Inr (),
                s\<lparr>world := w2,
                  trace := trace s @
                    [Debug ''Trying to unlock the Namecoin wallet.'',
                     UnlockPrimitive [],
                     Debug (case res of
                              Inr u \<Rightarrow> ''Unlock successful (or not necessary).''
                            | Inl e \<Rightarrow> if e = RpcError then ''NMC RPC Error'' else ''Error'')]\<rparr>)"
    if other: "res \<noteq> Inl NmcUnlockFailure"
    unfolding unlock_primitive_returns[OF prompt prim' other]
    by (cases res) (simp_all add: say_def emit_def catch_log_def)
  have B: "unlock env s =
              unlock env
                (s\<lparr>world := w2,
                   trace := trace s @
                     [Debug ''Trying to unlock the Namecoin wallet.'',
                      UnlockPrimitive [],
                      Debug ''Wrong passphrase, retrying.'']\<rparr>)"
    if wrong: "res = Inl NmcUnlockFailure"
    using prompt prim wrong
    by (subst unlock.simps) (simp add: call_def say_def emit_def)
  have C: "db (snd y) = db s \<and> pendingRegs (snd y) = pendingRegs s" if "unlock env s = Some y" for y
    using unlock_frame[OF that] by simp
  from A B C show ?thesis by blast
qed

text \<open>
  C7, witness: an open wallet, once with a primitive that throws an RPC error, once with
  a primitive that refuses the empty passphrase and locks the wallet (there the second
  round shows the dialog and calls the primitive again), and once with a primitive that
  refuses every passphrase (there \<^verbatim>\<open>unlock\<close> never returns).
\<close>

theorem unlock_without_passphrase_witness:
  "unlock env_unlock_down (demo_state False []) =
     Some (Inr (),
       (demo_state False [])
         \<lparr>world := False,
          trace := trace (demo_state False []) @
                   [Debug ''Trying to unlock the Namecoin wallet.'',
                    UnlockPrimitive [],
                    Debug ''NMC RPC Error'']\<rparr>)
   \<and> unlock env_refuse (demo_state False []) =
     Some (Inr (),
       (demo_state False [])
         \<lparr>trace := [Debug ''Trying to unlock the Namecoin wallet.'',
                    UnlockPrimitive [],
                    Debug ''Wrong passphrase, retrying.'',
                    Debug ''Trying to unlock the Namecoin wallet.'',
                    PromptShown,
                    UnlockPrimitive ''secret'',
                    Debug ''Unlock successful (or not necessary).'']\<rparr>)
   \<and> unlock env_stubborn (demo_state False []) = None"
proof -
  have need: "needWalletPassphrase env_unlock_down (world (demo_state False [])) = (Inr False, False)"
    by code_simp
  have prim: "walletUnlock env_unlock_down [] False = (Inl RpcError, False)"
    by code_simp
  from unlock_without_passphrase[OF need prim]
  have one: "unlock env_unlock_down (demo_state False []) =
     Some (Inr (),
       (demo_state False [])
         \<lparr>world := False,
          trace := trace (demo_state False []) @
                   [Debug ''Trying to unlock the Namecoin wallet.'',
                    UnlockPrimitive [],
                    Debug ''NMC RPC Error'']\<rparr>)"
    by simp
  have need': "needWalletPassphrase env_refuse (world (demo_state False [])) = (Inr False, False)"
    by code_simp
  have prim': "walletUnlock env_refuse [] False = (Inl NmcUnlockFailure, True)"
    by code_simp
  from unlock_without_passphrase[OF need' prim']
  have "unlock env_refuse (demo_state False []) =
          unlock env_refuse
            ((demo_state False [])
               \<lparr>world := True,
                trace := trace (demo_state False []) @
                  [Debug ''Trying to unlock the Namecoin wallet.'',
                   UnlockPrimitive [],
                   Debug ''Wrong passphrase, retrying.'']\<rparr>)"
    by simp
  also have "\<dots> =
     Some (Inr (),
       (demo_state False [])
         \<lparr>trace := [Debug ''Trying to unlock the Namecoin wallet.'',
                    UnlockPrimitive [],
                    Debug ''Wrong passphrase, retrying.'',
                    Debug ''Trying to unlock the Namecoin wallet.'',
                    PromptShown,
                    UnlockPrimitive ''secret'',
                    Debug ''Unlock successful (or not necessary).'']\<rparr>)"
    by code_simp
  finally have two: "unlock env_refuse (demo_state False []) =
     Some (Inr (),
       (demo_state False [])
         \<lparr>trace := [Debug ''Trying to unlock the Namecoin wallet.'',
                    UnlockPrimitive [],
                    Debug ''Wrong passphrase, retrying.'',
                    Debug ''Trying to unlock the Namecoin wallet.'',
                    PromptShown,
                    UnlockPrimitive ''secret'',
                    Debug ''Unlock successful (or not necessary).'']\<rparr>)" .
  have need'': "needWalletPassphrase env_stubborn (world (demo_state False [])) = (Inr False, False)"
    by code_simp
  have prim'': "walletUnlock env_stubborn [] False = (Inl NmcUnlockFailure, False)"
    by code_simp
  from unlock_without_passphrase[OF need'' prim'']
  have "unlock env_stubborn (demo_state False []) =
          unlock env_stubborn
            ((demo_state False [])
               \<lparr>world := False,
                trace := trace (demo_state False []) @
                  [Debug ''Trying to unlock the Namecoin wallet.'',
                   UnlockPrimitive [],
                   Debug ''Wrong passphrase, retrying.'']\<rparr>)"
    by simp
  then have three: "unlock env_stubborn (demo_state False []) = None"
    by (simp only: unlock_stubborn_never_returns)
  from one two three show ?thesis by simp
qed

subsection \<open>C8: an update without the private key\<close>

text \<open>
  C8.  When every step of \<^verbatim>\<open>updateName\<close> before the execution succeeds, with an
  owned address and an open wallet, and \<^verbatim>\<open>upd.execute\<close> throws
  \<^verbatim>\<open>NoPrivateKey\<close>, then \<^verbatim>\<open>updateName\<close> returns false, no exception leaves it,
  and the store is what it was: no transaction id is written and every row keeps its
  \<^verbatim>\<open>active\<close> and its \<^verbatim>\<open>updateTx\<close>.
\<close>

theorem updateName_no_private_key:
  assumes "getNymSource env nym (world s) = (Inr addrStr, w1)"
    and "queryAddress env addrStr w1 = (Inr addr, w2)"
    and "isValid env addr w2 = (Inr True, w3)"
    and "isMine env addr w3 = (Inr True, w4)"
    and "queryName env NMC_NS cred w4 = (Inr nm, w5)"
    and "nameUpdateCtor env nm w5 = (Inr upd, w6)"
    and "needWalletPassphrase env w6 = (Inr False, w7)"
    and "signMessage env addr cred w7 = (Inr sig, w8)"
    and "execute env (setValue env upd sig) addr w8 = (Inl NoPrivateKey, w9)"
  shows "updateName env nym cred s =
           (Inr False,
            s\<lparr>world := w9,
              trace := trace s @ [UpdateNameCall nym cred,
                 Debug ''Name cannot be updated, as you don't own the private key.'']\<rparr>)
         \<and> db (snd (updateName env nym cred s)) = db s"
proof -
  have "updateName env nym cred s =
           (Inr False,
            s\<lparr>world := w9,
              trace := trace s @ [UpdateNameCall nym cred,
                 Debug ''Name cannot be updated, as you don't own the private key.'']\<rparr>)"
    using assms by (simp add: updateName_def getNameForNym_def call_def emit_def say_def)
  then show ?thesis by simp
qed

text \<open>
  C8, witness: the registry whose update execution has no key, called for the finished
  binding \<^verbatim>\<open>ot/abc\<close>.
\<close>

theorem updateName_no_private_key_witness:
  "updateName env_no_key ''N1'' ''abc''
       (demo_state False [''Fot/abc''])
     = (Inr False,
        (demo_state False [''Fot/abc''])\<lparr>world := False,
            trace := trace (demo_state False [''Fot/abc'']) @ [UpdateNameCall ''N1'' ''abc'',
                 Debug ''Name cannot be updated, as you don't own the private key.'']\<rparr>)
   \<and> db (snd (updateName env_no_key ''N1'' ''abc''
       (demo_state False [''Fot/abc'']))) = db (demo_state False [''Fot/abc''])"
  by (rule updateName_no_private_key[where addrStr = "''N1''" and addr = "''N1''"
        and nm = "''ot/abc''" and upd = "(''ot/abc'', [])" and sig = "''sig:abc''"
        and ?w1.0 = False and ?w2.0 = False and ?w3.0 = False and ?w4.0 = False and ?w5.0 = False
        and ?w6.0 = False and ?w7.0 = False and ?w8.0 = False])
     (simp_all add: env_no_key_def demo_env_def demo_state_def NMC_NS_def)

subsection \<open>C9: a registration cancelled at the unlock\<close>

text \<open>
  C9.  When \<^verbatim>\<open>startRegistration\<close> has its name and \<^verbatim>\<open>unlock\<close> ends with the
  user's cancel, the function returns before \<^verbatim>\<open>registerName\<close>: no row is inserted,
  nothing is appended to the ledger, and no register call is made.
\<close>

theorem startRegistration_unlock_cancelled:
  assumes nm: "getNameForNym env nym cred (world s) = (Inr nm, w1)"
    and cancel: "unlock env ((say ''Registering on the Namecoin blockchain.'' s)\<lparr>world := w1\<rparr>)
                   = Some (Inl UnlockFailure, s3)"
  shows "startRegistration env nym cred s = Some (say ''Unlock failed.'' s3)
         \<and> pendingRegs (say ''Unlock failed.'' s3) = pendingRegs s
         \<and> db (say ''Unlock failed.'' s3) = db s
         \<and> filter advance_event (trace (say ''Unlock failed.'' s3)) = filter advance_event (trace s)"
proof -
  from unlock_frame[OF cancel]
  have f3: "pendingRegs s3 = pendingRegs s" "db s3 = db s"
           "filter advance_event (trace s3) = filter advance_event (trace s)"
    by (auto simp: unlock_events_not_advance)
  have "startRegistration env nym cred s = Some (say ''Unlock failed.'' s3)"
    using nm cancel by (simp add: startRegistration_def Let_def call_def)
  with f3 show ?thesis by simp
qed

text \<open>
  C9, witness: a locked wallet, one binding in the ledger already, and a user who
  presses cancel.
\<close>

theorem startRegistration_unlock_cancelled_witness:
  "startRegistration env_cancel ''N1'' ''abc'' (demo_state True [''Rot/q'']) =
     Some ((demo_state True [''Rot/q''])
         \<lparr>trace := [Debug ''Registering on the Namecoin blockchain.'',
                    Debug ''Trying to unlock the Namecoin wallet.'',
                    PromptShown,
                    Debug ''Wallet unlock was cancelled.'',
                    Debug ''Unlock failed.'']\<rparr>)"
proof -
  let ?s = "demo_state True [''Rot/q'']"
  let ?s3 = "say ''Wallet unlock was cancelled.''
               (emit PromptShown
                  (say ''Trying to unlock the Namecoin wallet.''
                     (say ''Registering on the Namecoin blockchain.'' ?s)))"
  have nm: "getNameForNym env_cancel ''N1'' ''abc'' (world ?s) = (Inr ''ot/abc'', True)"
    by code_simp
  have cancel: "unlock env_cancel ((say ''Registering on the Namecoin blockchain.'' ?s)\<lparr>world := True\<rparr>)
                  = Some (Inl UnlockFailure, ?s3)"
    by code_simp
  from startRegistration_unlock_cancelled[OF nm cancel]
  have "startRegistration env_cancel ''N1'' ''abc'' ?s = Some (say ''Unlock failed.'' ?s3)"
    by simp
  also have "say ''Unlock failed.'' ?s3 =
       (demo_state True [''Rot/q''])
         \<lparr>trace := [Debug ''Registering on the Namecoin blockchain.'',
                    Debug ''Trying to unlock the Namecoin wallet.'',
                    PromptShown,
                    Debug ''Wallet unlock was cancelled.'',
                    Debug ''Unlock failed.'']\<rparr>"
    by code_simp
  finally show ?thesis .
qed

subsection \<open>C10: rows that share a name\<close>



end
